theory Spec2Isabelle
  imports Main
begin

section \<open>Data model\<close>

text \<open>
  Modelled from the spec: the classes BitId, ModelComponent, Version, ComponentVersion,
  VersionDependencies, Lane and RemoteLaneId are imported by
  \<^verbatim>\<open>src/scope/component-ops/scope-components-importer.ts\<close> and are not in the file.
  An identifier is a scope, a name and a version; a component record is owned by one
  scope and has an ordered list of version tags and an optional head; a version
  content holds the three flattened dependency lists; a resolved component and version
  pairs a record with a version; a dependency closure result is the resolved component
  and version, its three resolved lists and the origin scope; a lane is a named pointer
  of a scope to component versions. The records carry the fields the importer reads.
\<close>

record BitId =
  scope :: string
  name :: string
  version :: string

record ModelComponent =
  mc_scope :: string
  mc_name :: string
  mc_versions :: "string list"
  mc_head :: "string option"

record Version =
  flattenedDependencies :: "BitId list"
  flattenedDevDependencies :: "BitId list"
  extensionsBitIds :: "BitId list"

record ComponentVersion =
  cv_component :: ModelComponent
  cv_version :: string

record VersionDependencies =
  vd_component :: ComponentVersion
  dependencies :: "ComponentVersion list"
  devDependencies :: "ComponentVersion list"
  extensionsDependencies :: "ComponentVersion list"
  sourceScope :: string

record Lane =
  lane_scope :: string
  lane_name :: string
  lane_components :: "BitId list"

record RemoteLaneId =
  rl_scope :: string
  rl_name :: string

text \<open>
  Modelled from the spec: ObjectList and the objects it deserialises to are not in the
  file. An Object Transfer Batch is a collection of content items that deserialise into
  component records, version contents, lanes or raw blobs (hash and payload);
  \<^verbatim>\<open>toBitObjects\<close> is the identity on it.
\<close>

datatype BitObject =
    ComponentObject ModelComponent
  | VersionObject string Version
  | LaneObject Lane
  | RawObject string string

type_synonym ObjectList = "BitObject list"

text \<open>
  The errors the importer throws itself (ComponentNotFound, DependencyNotFound,
  ShowDoctorError, GeneralError), the two network errors it tests for
  (RemoteScopeNotFound, PermissionDenied), the TypeError of a method call on
  \<^verbatim>\<open>undefined\<close>, and any other error a collaborator may throw.
\<close>

datatype error =
    ComponentNotFound string
  | DependencyNotFound "string option"
  | ShowDoctorError string
  | GeneralError string
  | RemoteScopeNotFound string
  | PermissionDenied string
  | TypeError
  | OtherError "string option"

text \<open>
  The \<^verbatim>\<open>id\<close> property that \<^verbatim>\<open>importDependencies\<close> reads off a caught error:
  ComponentNotFound carries the identifier string it was built from, an arbitrary
  other error may or may not have one, the others have none.
\<close>

fun error_id :: "error \<Rightarrow> string option" where
  "error_id (ComponentNotFound i) = Some i"
| "error_id (DependencyNotFound i) = i"
| "error_id (OtherError i) = i"
| "error_id _ = None"

text \<open>
  The options argument of \<^verbatim>\<open>remotes.fetch\<close>: the four values the importer passes are
  \<^verbatim>\<open>undefined\<close>, \<^verbatim>\<open>{ withoutDependencies: true }\<close>, \<^verbatim>\<open>{ type: 'lane' }\<close> and
  \<^verbatim>\<open>{ type: 'object' }\<close>.
\<close>

datatype fetch_options = NoOptions | WithoutDependencies | TypeLane | TypeObject

record fetch_request =
  grouped :: "(string \<times> string list) list"
  options :: fetch_options
  requestContext :: "string list option"

text \<open>
  Every call the importer makes to a collaborator with an effect is recorded, in
  order; the claims about which calls happen are claims about this trace.
\<close>

datatype event =
    Fetch fetch_request
  | WriteMany ObjectList "bool option" "BitId list"
  | SyncLane string Lane
  | AddMany ObjectList
  | Persist

text \<open>
  The collaborators (the sources repository, the objects repository, the remotes and
  the scope's write-back) are not in the file. They are parameters of the model: an
  environment of functions over a world \<open>'w\<close>, which holds the local store and whatever
  the remotes depend on. \<open>fetch\<close> and \<open>writeManyComponentsToModel\<close> may change the world.
\<close>

record 'w env =
  scope_name :: string
  sources_get :: "'w \<Rightarrow> BitId \<Rightarrow> ModelComponent option"
  getVersion :: "'w \<Rightarrow> ComponentVersion \<Rightarrow> Version option"
  objects_has :: "'w \<Rightarrow> string \<Rightarrow> bool"
  fetch :: "fetch_request \<Rightarrow> 'w \<Rightarrow> (error + ObjectList) \<times> 'w"
  writeManyComponentsToModel :: "ObjectList \<Rightarrow> bool option \<Rightarrow> BitId list \<Rightarrow> 'w \<Rightarrow> BitId list \<times> 'w"
  syncWithLaneObject :: "string \<Rightarrow> Lane \<Rightarrow> 'w \<Rightarrow> 'w"
  addMany :: "ObjectList \<Rightarrow> 'w \<Rightarrow> 'w"
  persist :: "'w \<Rightarrow> 'w"

record 'w state =
  world :: 'w
  trace :: "event list"

type_synonym ('a, 'w) result = "((error + 'a) \<times> 'w state) option"

section \<open>Identifiers\<close>

definition removeNils :: "'a option list \<Rightarrow> 'a list" where
  "removeNils xs = map the (filter (\<lambda>x. x \<noteq> None) xs)"

text \<open>
  Modelled from the spec: BitId.isLocal is not in the file; an identifier is local iff
  its scope equals the importer's own scope name.
\<close>

definition isLocal :: "string \<Rightarrow> BitId \<Rightarrow> bool" where
  "isLocal self i = (scope i = self)"

text \<open>
  Modelled from the spec: BitId.toString and RemoteLaneId.toString are not in the file;
  the string form of an identifier names all three fields, that of a lane reference its
  scope and name.
\<close>

definition idString :: "BitId \<Rightarrow> string" where
  "idString i = scope i @ ''/'' @ name i @ ''@'' @ version i"

definition laneIdString :: "RemoteLaneId \<Rightarrow> string" where
  "laneIdString l = rl_scope l @ ''/'' @ rl_name l"

text \<open>
  \<^verbatim>\<open>groupByScopeName\<close>: group-array collects the items under the value of their
  \<^verbatim>\<open>scope\<close> property, and every group is mapped to the strings of its items. The
  object is an association list with one entry per scope; only lookups in it are
  meaningful, the order of the keys is not.
\<close>

definition groupByScopeName :: "('a \<Rightarrow> string) \<Rightarrow> ('a \<Rightarrow> string) \<Rightarrow> 'a list \<Rightarrow> (string \<times> string list) list" where
  "groupByScopeName sc str ids =
     map (\<lambda>s. (s, map str (filter (\<lambda>i. sc i = s) ids))) (remdups (map sc ids))"

section \<open>Collaborator calls\<close>

text \<open>
  Modelled from the spec: SourcesRepository.getMany is not in the file; lookupMany
  returns one entry per identifier, in order, with the record or its absence.
\<close>

definition sources_getMany :: "'w env \<Rightarrow> 'w \<Rightarrow> BitId list \<Rightarrow> (BitId \<times> ModelComponent option) list" where
  "sources_getMany env w ids = map (\<lambda>i. (i, sources_get env w i)) ids"

text \<open>
  Modelled from the spec: ModelComponent.toComponentVersion is not in the file; a
  resolved component and version pairs the component record with the version.
\<close>

definition toComponentVersion :: "ModelComponent \<Rightarrow> string \<Rightarrow> ComponentVersion" where
  "toComponentVersion c v = \<lparr>cv_component = c, cv_version = v\<rparr>"

definition remotes_fetch :: "'w env \<Rightarrow> fetch_request \<Rightarrow> 'w state \<Rightarrow> (error + ObjectList) \<times> 'w state" where
  "remotes_fetch env req st =
     (case fetch env req (world st) of
        (r, w') \<Rightarrow> (r, \<lparr>world = w', trace = trace st @ [Fetch req]\<rparr>))"

definition scope_writeMany :: "'w env \<Rightarrow> ObjectList \<Rightarrow> bool option \<Rightarrow> BitId list \<Rightarrow> 'w state \<Rightarrow> BitId list \<times> 'w state" where
  "scope_writeMany env objectList p ids st =
     (case writeManyComponentsToModel env objectList p ids (world st) of
        (nonLaneIds, w') \<Rightarrow> (nonLaneIds, \<lparr>world = w', trace = trace st @ [WriteMany objectList p ids]\<rparr>))"

section \<open>Shallow resolution\<close>

text \<open>
  \<^verbatim>\<open>def.component.toComponentVersion(def.id.version)\<close> over the looked-up entries; a
  missing record would be a TypeError on \<^verbatim>\<open>undefined\<close>.
\<close>

fun defsToComponentVersions :: "(BitId \<times> ModelComponent option) list \<Rightarrow> error + ComponentVersion list" where
  "defsToComponentVersions [] = Inr []"
| "defsToComponentVersions ((i, None) # ds) = Inl TypeError"
| "defsToComponentVersions ((i, Some c) # ds) =
     (case defsToComponentVersions ds of
        Inl e \<Rightarrow> Inl e
      | Inr cvs \<Rightarrow> Inr (toComponentVersion c (version i) # cvs))"

text \<open>
  \<^verbatim>\<open>_getExternalManyWithoutDependencies\<close>: recursive; a call that never returns has
  the value None.
\<close>

partial_function (option) getExternalManyWithoutDependencies ::
  "'w env \<Rightarrow> BitId list \<Rightarrow> bool \<Rightarrow> 'w state \<Rightarrow> (ComponentVersion list, 'w) result"
where
  "getExternalManyWithoutDependencies env ids localFetch st =
     (if ids = [] then Some (Inr [], st)
      else
        let defs = sources_getMany env (world st) ids;
            left = filter (\<lambda>d. \<not> localFetch \<or> snd d = None) defs
        in if left = [] then Some (defsToComponentVersions defs, st)
           else
             (case remotes_fetch env
                     \<lparr>grouped = groupByScopeName scope idString (map fst left),
                      options = WithoutDependencies,
                      requestContext = Some (map idString ids)\<rparr> st of
                (Inl e, st1) \<Rightarrow> Some (Inl e, st1)
              | (Inr objectList, st1) \<Rightarrow>
                  (case scope_writeMany env objectList None ids st1 of
                     (nonLaneIds, st2) \<Rightarrow>
                       getExternalManyWithoutDependencies env nonLaneIds True st2)))"

declare getExternalManyWithoutDependencies.simps [code]

text \<open>
  Modelled from the spec: utils.splitBy is not in the file; partition splits an
  identifier list into its external and its local part, as the destructuring
  \<^verbatim>\<open>[externals, locals]\<close> names them.
\<close>

definition splitBy :: "'a list \<Rightarrow> ('a \<Rightarrow> bool) \<Rightarrow> 'a list \<times> 'a list" where
  "splitBy xs p = (filter (\<lambda>x. \<not> p x) xs, filter p xs)"

text \<open>
  The body of \<^verbatim>\<open>localDefs.map\<close> in \<^verbatim>\<open>importManyWithoutDependencies\<close>: the first
  entry without a record throws ComponentNotFound.
\<close>

fun localDefsToComponentVersions :: "(BitId \<times> ModelComponent option) list \<Rightarrow> error + ComponentVersion list" where
  "localDefsToComponentVersions [] = Inr []"
| "localDefsToComponentVersions ((i, None) # ds) = Inl (ComponentNotFound (idString i))"
| "localDefsToComponentVersions ((i, Some c) # ds) =
     (case localDefsToComponentVersions ds of
        Inl e \<Rightarrow> Inl e
      | Inr cvs \<Rightarrow> Inr (toComponentVersion c (version i) # cvs))"

definition importManyWithoutDependencies ::
  "'w env \<Rightarrow> BitId option list \<Rightarrow> bool \<Rightarrow> 'w state \<Rightarrow> (ComponentVersion list, 'w) result"
where
  "importManyWithoutDependencies env ids cache st =
     (if ids = [] then Some (Inr [], st)
      else
        let idsWithoutNils = removeNils ids
        in if idsWithoutNils = [] then Some (Inr [], st)
           else
             (case splitBy idsWithoutNils (isLocal (scope_name env)) of
                (externals, locals) \<Rightarrow>
                  (case localDefsToComponentVersions (sources_getMany env (world st) locals) of
                     Inl e \<Rightarrow> Some (Inl e, st)
                   | Inr componentVersionArr \<Rightarrow>
                       (case getExternalManyWithoutDependencies env externals cache st of
                          None \<Rightarrow> None
                        | Some (Inl e, st1) \<Rightarrow> Some (Inl e, st1)
                        | Some (Inr externalDeps, st1) \<Rightarrow>
                            Some (Inr (componentVersionArr @ externalDeps), st1)))))"

section \<open>Dependency expansion\<close>

text \<open>
  The second half of \<^verbatim>\<open>componentToVersionDependencies\<close>, once the version content is
  at hand: the three flattened lists are resolved shallowly, one after the other, with
  the default \<^verbatim>\<open>cache = true\<close>.
\<close>

definition collectDependencies ::
  "'w env \<Rightarrow> ComponentVersion \<Rightarrow> string \<Rightarrow> Version \<Rightarrow> 'w state \<Rightarrow> (VersionDependencies, 'w) result"
where
  "collectDependencies env versionComp source ver st =
     (case importManyWithoutDependencies env (map Some (flattenedDependencies ver)) True st of
        None \<Rightarrow> None
      | Some (Inl e, st1) \<Rightarrow> Some (Inl e, st1)
      | Some (Inr deps, st1) \<Rightarrow>
          (case importManyWithoutDependencies env (map Some (flattenedDevDependencies ver)) True st1 of
             None \<Rightarrow> None
           | Some (Inl e, st2) \<Rightarrow> Some (Inl e, st2)
           | Some (Inr devDeps, st2) \<Rightarrow>
               (case importManyWithoutDependencies env (map Some (extensionsBitIds ver)) True st2 of
                  None \<Rightarrow> None
                | Some (Inl e, st3) \<Rightarrow> Some (Inl e, st3)
                | Some (Inr extDeps, st3) \<Rightarrow>
                    Some (Inr \<lparr>vd_component = versionComp, dependencies = deps,
                                devDependencies = devDeps, extensionsDependencies = extDeps,
                                sourceScope = source\<rparr>, st3))))"

definition versionNotFoundMessage :: "'w env \<Rightarrow> ModelComponent \<Rightarrow> ComponentVersion \<Rightarrow> string" where
  "versionNotFoundMessage env component versionComp =
     ''Version '' @ cv_version versionComp @ '' of '' @ mc_scope component @ ''/'' @ mc_name component
       @ '' was not found in scope '' @ scope_name env"

text \<open>
  \<^verbatim>\<open>componentToVersionDependencies\<close> and \<^verbatim>\<open>_getExternal\<close> call each other. They are
  one recursive function over the call that is made; the two source functions are its
  two instances, defined right below.
\<close>

datatype call =
    Call_componentToVersionDependencies ModelComponent BitId
  | Call_getExternal BitId bool

partial_function (option) resolveCall ::
  "'w env \<Rightarrow> call \<Rightarrow> 'w state \<Rightarrow> (VersionDependencies, 'w) result"
where
  "resolveCall env c st =
     (case c of
        Call_componentToVersionDependencies component i \<Rightarrow>
          (let versionComp = toComponentVersion component (version i);
               source = scope i
           in case getVersion env (world st) versionComp of
                None \<Rightarrow>
                  if mc_scope component = scope_name env
                  then Some (Inl (ShowDoctorError (versionNotFoundMessage env component versionComp)), st)
                  else resolveCall env (Call_getExternal i False) st
              | Some ver \<Rightarrow> collectDependencies env versionComp source ver st)
      | Call_getExternal i localFetch \<Rightarrow>
          (let component = sources_get env (world st) i
           in if component \<noteq> None \<and> localFetch
              then resolveCall env (Call_componentToVersionDependencies (the component) i) st
              else
                (case remotes_fetch env
                        \<lparr>grouped = groupByScopeName scope idString [i],
                         options = NoOptions, requestContext = None\<rparr> st of
                   (Inl e, st1) \<Rightarrow> Some (Inl e, st1)
                 | (Inr objectList, st1) \<Rightarrow>
                     (case scope_writeMany env objectList (Some True) [i] st1 of
                        (nonLaneIds, st2) \<Rightarrow> resolveCall env (Call_getExternal i True) st2))))"

declare resolveCall.simps [code]

definition componentToVersionDependencies ::
  "'w env \<Rightarrow> ModelComponent \<Rightarrow> BitId \<Rightarrow> 'w state \<Rightarrow> (VersionDependencies, 'w) result"
where
  "componentToVersionDependencies env component i st =
     resolveCall env (Call_componentToVersionDependencies component i) st"

definition getExternal :: "'w env \<Rightarrow> BitId \<Rightarrow> bool \<Rightarrow> 'w state \<Rightarrow> (VersionDependencies, 'w) result" where
  "getExternal env i localFetch st = resolveCall env (Call_getExternal i localFetch) st"

section \<open>The recursive resolver\<close>

fun mapSeries :: "('a \<Rightarrow> 's \<Rightarrow> ((error + 'b) \<times> 's) option) \<Rightarrow> 'a list \<Rightarrow> 's \<Rightarrow> ((error + 'b list) \<times> 's) option" where
  "mapSeries f [] st = Some (Inr [], st)"
| "mapSeries f (x # xs) st =
     (case f x st of
        None \<Rightarrow> None
      | Some (Inl e, st1) \<Rightarrow> Some (Inl e, st1)
      | Some (Inr y, st1) \<Rightarrow>
          (case mapSeries f xs st1 of
             None \<Rightarrow> None
           | Some (Inl e, st2) \<Rightarrow> Some (Inl e, st2)
           | Some (Inr ys, st2) \<Rightarrow> Some (Inr (y # ys), st2)))"

text \<open>
  The callback of \<^verbatim>\<open>mapSeries\<close> in \<^verbatim>\<open>_getExternalMany\<close>: the record is cast, not
  checked; the method call on a missing one would be a TypeError.
\<close>

definition expandDef :: "'w env \<Rightarrow> BitId \<times> ModelComponent option \<Rightarrow> 'w state \<Rightarrow> (VersionDependencies, 'w) result" where
  "expandDef env compDef st =
     (case snd compDef of
        None \<Rightarrow> Some (Inl TypeError, st)
      | Some component \<Rightarrow> componentToVersionDependencies env component (fst compDef) st)"

text \<open>
  \<^verbatim>\<open>_getExternalMany\<close>. The recursive call passes \<^verbatim>\<open>nonLaneIds\<close> and \<^verbatim>\<open>remotes\<close>
  only, so \<^verbatim>\<open>localFetch\<close> and \<^verbatim>\<open>persist\<close> take their defaults, both true.
\<close>

partial_function (option) getExternalMany ::
  "'w env \<Rightarrow> BitId list \<Rightarrow> bool \<Rightarrow> bool \<Rightarrow> 'w state \<Rightarrow> (VersionDependencies list, 'w) result"
where
  "getExternalMany env ids localFetch persistFlag st =
     (if ids = [] then Some (Inr [], st)
      else
        let componentDefs = sources_getMany env (world st) ids;
            left = filter (\<lambda>d. \<not> localFetch \<or> snd d = None) componentDefs
        in if left = [] then mapSeries (expandDef env) componentDefs st
           else
             (case remotes_fetch env
                     \<lparr>grouped = groupByScopeName scope idString (map fst left),
                      options = NoOptions,
                      requestContext = Some (map idString ids)\<rparr> st of
                (Inl e, st1) \<Rightarrow> Some (Inl e, st1)
              | (Inr objectList, st1) \<Rightarrow>
                  (case scope_writeMany env objectList (Some persistFlag) ids st1 of
                     (nonLaneIds, st2) \<Rightarrow> getExternalMany env nonLaneIds True True st2)))"

declare getExternalMany.simps [code]

text \<open>
  The callback of \<^verbatim>\<open>mapSeries\<close> in \<^verbatim>\<open>importMany\<close>: a local identifier without a
  record throws ComponentNotFound.
\<close>

definition expandLocalDef :: "'w env \<Rightarrow> BitId \<times> ModelComponent option \<Rightarrow> 'w state \<Rightarrow> (VersionDependencies, 'w) result" where
  "expandLocalDef env def st =
     (case snd def of
        None \<Rightarrow> Some (Inl (ComponentNotFound (idString (fst def))), st)
      | Some component \<Rightarrow> componentToVersionDependencies env component (fst def) st)"

definition importMany ::
  "'w env \<Rightarrow> BitId option list \<Rightarrow> bool \<Rightarrow> bool \<Rightarrow> 'w state \<Rightarrow> (VersionDependencies list, 'w) result"
where
  "importMany env ids cache persistFlag st =
     (let idsWithoutNils = removeNils ids
      in if idsWithoutNils = [] then Some (Inr [], st)
         else
           (case partition (isLocal (scope_name env)) idsWithoutNils of
              (locals, externals) \<Rightarrow>
                (case mapSeries (expandLocalDef env) (sources_getMany env (world st) locals) st of
                   None \<Rightarrow> None
                 | Some (Inl e, st1) \<Rightarrow> Some (Inl e, st1)
                 | Some (Inr versionDeps, st1) \<Rightarrow>
                     (case getExternalMany env externals cache persistFlag st1 of
                        None \<Rightarrow> None
                      | Some (Inl e, st2) \<Rightarrow> Some (Inl e, st2)
                      | Some (Inr externalDeps, st2) \<Rightarrow>
                          Some (Inr (versionDeps @ externalDeps), st2)))))"

section \<open>Multi-version import\<close>

text \<open>
  Modelled from the spec: ComponentVersion.id, BitId.changeVersion,
  BitIds.hasWithoutVersion, BitIds.uniqFromArray, VersionDependencies.allDependencies
  and Lane.toBitIds are not in the file. The identifier of a resolved component and
  version is the record's scope and name with the version; hasWithoutVersion is an
  equality check on scope and name only; an identifier set is unique by string form
  and keeps insertion order; allDependencies is the three resolved lists, runtime,
  development and extension, one after the other.
\<close>

definition cv_id :: "ComponentVersion \<Rightarrow> BitId" where
  "cv_id cv = \<lparr>scope = mc_scope (cv_component cv), name = mc_name (cv_component cv), version = cv_version cv\<rparr>"

definition changeVersion :: "BitId \<Rightarrow> string \<Rightarrow> BitId" where
  "changeVersion i v = i\<lparr>version := v\<rparr>"

definition hasWithoutVersion :: "BitId list \<Rightarrow> BitId \<Rightarrow> bool" where
  "hasWithoutVersion ids i = (\<exists>j \<in> set ids. scope j = scope i \<and> name j = name i)"

fun uniqBy :: "('a \<Rightarrow> 'b) \<Rightarrow> 'b list \<Rightarrow> 'a list \<Rightarrow> 'a list" where
  "uniqBy f seen [] = []"
| "uniqBy f seen (x # xs) =
     (if f x \<in> set seen then uniqBy f seen xs else x # uniqBy f (f x # seen) xs)"

definition uniqFromArray :: "BitId list \<Rightarrow> BitId list" where
  "uniqFromArray ids = uniqBy idString [] ids"

definition allDependencies :: "VersionDependencies \<Rightarrow> ComponentVersion list" where
  "allDependencies v = dependencies v @ devDependencies v @ extensionsDependencies v"

text \<open>
  The body of the \<^verbatim>\<open>forEach\<close> in \<^verbatim>\<open>importManyWithAllVersions\<close>: what one result
  pushes to \<^verbatim>\<open>allIdsWithAllVersions\<close>.
\<close>

definition idsWithAllVersions :: "VersionDependencies \<Rightarrow> BitId list" where
  "idsWithAllVersions versionDependencies =
     (let versions = mc_versions (cv_component (vd_component versionDependencies));
          versionId = cv_id (vd_component versionDependencies);
          idsWithAllVersions =
            map (\<lambda>v. if v = cv_version (vd_component versionDependencies) then None
                      else Some (changeVersion versionId v)) versions
      in removeNils idsWithAllVersions @
         (case mc_head (cv_component (vd_component versionDependencies)) of
            None \<Rightarrow> []
          | Some h \<Rightarrow> [changeVersion versionId h]))"

definition allIdsWithAllVersions :: "VersionDependencies list \<Rightarrow> BitId list" where
  "allIdsWithAllVersions versionDependenciesArr = concat (map idsWithAllVersions versionDependenciesArr)"

definition dependenciesOnly :: "BitId option list \<Rightarrow> VersionDependencies list \<Rightarrow> BitId list" where
  "dependenciesOnly ids versionDependenciesArr =
     filter (\<lambda>i. \<not> hasWithoutVersion (removeNils ids) i)
       (concat (map (\<lambda>v. map cv_id (allDependencies v)) versionDependenciesArr))"

text \<open>
  \<^verbatim>\<open>importManyWithAllVersions\<close>. Its recursive call passes the identifiers only, so
  \<^verbatim>\<open>cache\<close> is true and \<^verbatim>\<open>allDepsVersions\<close> is false there: the recursion is one
  level deep.
\<close>

function importManyWithAllVersions ::
  "'w env \<Rightarrow> BitId option list \<Rightarrow> bool \<Rightarrow> bool \<Rightarrow> 'w state \<Rightarrow> (VersionDependencies list, 'w) result"
where
  "importManyWithAllVersions env ids cache allDepsVersions st =
     (let idsWithoutNils = removeNils ids
      in if idsWithoutNils = [] then Some (Inr [], st)
         else
           (case importMany env (map Some idsWithoutNils) cache True st of
              None \<Rightarrow> None
            | Some (Inl e, st1) \<Rightarrow> Some (Inl e, st1)
            | Some (Inr versionDependenciesArr, st1) \<Rightarrow>
                (let allIds = allIdsWithAllVersions versionDependenciesArr
                 in if allDepsVersions then
                      (case importMany env (map Some allIds) cache True st1 of
                         None \<Rightarrow> None
                       | Some (Inl e, st2) \<Rightarrow> Some (Inl e, st2)
                       | Some (Inr verDepsOfOlderVersions, st2) \<Rightarrow>
                           (let arr = versionDependenciesArr @ verDepsOfOlderVersions
                            in case importManyWithAllVersions env
                                      (map Some (uniqFromArray (dependenciesOnly ids arr))) True False st2 of
                                 None \<Rightarrow> None
                               | Some (Inl e, st3) \<Rightarrow> Some (Inl e, st3)
                               | Some (Inr verDepsOfAllFlattenDeps, st3) \<Rightarrow>
                                   Some (Inr (arr @ verDepsOfAllFlattenDeps), st3)))
                    else
                      (case importManyWithoutDependencies env (map Some allIds) True st1 of
                         None \<Rightarrow> None
                       | Some (Inl e, st2) \<Rightarrow> Some (Inl e, st2)
                       | Some (Inr cvs, st2) \<Rightarrow> Some (Inr versionDependenciesArr, st2)))))"
  by pat_completeness auto
termination
  by (relation "measure (\<lambda>(env, ids, cache, allDepsVersions, st). if allDepsVersions then 1 else 0)") auto

declare importManyWithAllVersions.simps [simp del]

section \<open>Dependencies, lanes and raw objects\<close>

definition importDependencies ::
  "'w env \<Rightarrow> BitId option list \<Rightarrow> 'w state \<Rightarrow> (VersionDependencies list, 'w) result"
where
  "importDependencies env deps st =
     (case importMany env deps True True st of
        None \<Rightarrow> None
      | Some (Inr r, st1) \<Rightarrow> Some (Inr r, st1)
      | Some (Inl e, st1) \<Rightarrow>
          (case e of
             RemoteScopeNotFound s \<Rightarrow> Some (Inl e, st1)
           | PermissionDenied s \<Rightarrow> Some (Inl e, st1)
           | _ \<Rightarrow> Some (Inl (DependencyNotFound (error_id e)), st1)))"

text \<open>
  Modelled from the spec: BitObjectList.getLanes is not in the file; the lanes of a
  batch are its lane records, in order.
\<close>

fun getLanes :: "ObjectList \<Rightarrow> Lane list" where
  "getLanes [] = []"
| "getLanes (LaneObject l # os) = l # getLanes os"
| "getLanes (_ # os) = getLanes os"

definition syncLanes :: "'w env \<Rightarrow> Lane list \<Rightarrow> 'w state \<Rightarrow> 'w state" where
  "syncLanes env lanes st =
     fold (\<lambda>lane s. \<lparr>world = syncWithLaneObject env (lane_scope lane) lane (world s),
                     trace = trace s @ [SyncLane (lane_scope lane) lane]\<rparr>) lanes st"

definition importLanes :: "'w env \<Rightarrow> RemoteLaneId list \<Rightarrow> 'w state \<Rightarrow> (Lane list, 'w) result" where
  "importLanes env remoteLaneIds st =
     (case remotes_fetch env
             \<lparr>grouped = groupByScopeName rl_scope laneIdString remoteLaneIds,
              options = TypeLane, requestContext = None\<rparr> st of
        (Inl e, st1) \<Rightarrow> Some (Inl e, st1)
      | (Inr objectList, st1) \<Rightarrow>
          (let lanes = getLanes objectList
           in Some (Inr lanes, syncLanes env lanes st1)))"

definition importFromLanes :: "'w env \<Rightarrow> RemoteLaneId list \<Rightarrow> 'w state \<Rightarrow> (Lane list, 'w) result" where
  "importFromLanes env remoteLaneIds st =
     (case importLanes env remoteLaneIds st of
        None \<Rightarrow> None
      | Some (Inl e, st1) \<Rightarrow> Some (Inl e, st1)
      | Some (Inr lanes, st1) \<Rightarrow>
          (let bitIds = uniqFromArray (concat (map lane_components lanes))
           in case importManyWithAllVersions env (map Some bitIds) False False st1 of
                None \<Rightarrow> None
              | Some (Inl e, st2) \<Rightarrow> Some (Inl e, st2)
              | Some (Inr r, st2) \<Rightarrow> Some (Inr lanes, st2)))"

text \<open>
  \<^verbatim>\<open>importManyObjects\<close>. \<^verbatim>\<open>R.uniq\<close> keeps the first occurrence of every hash; a scope
  gets an entry in \<^verbatim>\<open>groupedHashedMissing\<close> only if one of its hashes is missing.
\<close>

definition missingHashes :: "'w env \<Rightarrow> 'w \<Rightarrow> string list \<Rightarrow> string list" where
  "missingHashes env w hashes = filter (\<lambda>h. \<not> objects_has env w h) (uniqBy (\<lambda>h. h) [] hashes)"

definition groupedHashedMissing :: "'w env \<Rightarrow> 'w \<Rightarrow> (string \<times> string list) list \<Rightarrow> (string \<times> string list) list" where
  "groupedHashedMissing env w groupedHashes =
     filter (\<lambda>(scopeName, missing). missing \<noteq> [])
       (map (\<lambda>(scopeName, hashes). (scopeName, missingHashes env w hashes)) groupedHashes)"

definition importManyObjects :: "'w env \<Rightarrow> (string \<times> string list) list \<Rightarrow> 'w state \<Rightarrow> (unit, 'w) result" where
  "importManyObjects env groupedHashes st =
     (let missing = groupedHashedMissing env (world st) groupedHashes
      in if missing = [] then Some (Inr (), st)
         else
           (case remotes_fetch env \<lparr>grouped = missing, options = TypeObject, requestContext = None\<rparr> st of
              (Inl e, st1) \<Rightarrow> Some (Inl e, st1)
            | (Inr objectList, st1) \<Rightarrow>
                Some (Inr (), \<lparr>world = persist env (addMany env objectList (world st1)),
                               trace = trace st1 @ [AddMany objectList, Persist]\<rparr>)))"

section \<open>Progress of a round-trip\<close>

text \<open>
  The identifiers of a list that have no record in the local store, and the condition
  that a round-trip of the resolver (fetch of the missing ones, write-back) strictly
  shrinks their number in the residual. The condition covers the fetch options of both
  resolvers.
\<close>

definition missing :: "'w env \<Rightarrow> 'w \<Rightarrow> BitId list \<Rightarrow> BitId list" where
  "missing env w ids = filter (\<lambda>i. sources_get env w i = None) ids"

definition progress :: "'w env \<Rightarrow> bool" where
  "progress env =
     (\<forall>ids w opts ctx p objectList w1 nonLaneIds w2.
        missing env w ids \<noteq> [] \<and>
        fetch env \<lparr>grouped = groupByScopeName scope idString (missing env w ids),
                   options = opts, requestContext = ctx\<rparr> w = (Inr objectList, w1) \<and>
        writeManyComponentsToModel env objectList p ids w1 = (nonLaneIds, w2)
        \<longrightarrow> length (missing env w2 nonLaneIds) < length (missing env w ids))"

section \<open>Conditions on the collaborators\<close>


definition storeKeyedById :: "'w env \<Rightarrow> bool" where
  "storeKeyedById env =
     (\<forall>w i c. sources_get env w i = Some c \<longrightarrow> mc_scope c = scope i \<and> mc_name c = name i)"



text \<open>The order in which the resolved entries of an identifier list come back.\<close>

definition localsFirst :: "string \<Rightarrow> BitId list \<Rightarrow> BitId list" where
  "localsFirst self ids = filter (isLocal self) ids @ filter (\<lambda>i. \<not> isLocal self i) ids"

text \<open>Every flattened dependency of every version content is a local identifier.\<close>

definition allDepsLocal :: "'w env \<Rightarrow> bool" where
  "allDepsLocal env =
     (\<forall>w cv ver. getVersion env w cv = Some ver \<longrightarrow>
        (\<forall>j \<in> set (flattenedDependencies ver @ flattenedDevDependencies ver @ extensionsBitIds ver).
           isLocal (scope_name env) j))"

text \<open>The trace only grows: a later state extends an earlier one.\<close>

definition traceExtends :: "'w state \<Rightarrow> 'w state \<Rightarrow> bool" where
  "traceExtends st st' = (\<exists>evs. trace st' = trace st @ evs)"

section \<open>A concrete environment\<close>

text \<open>
  A small world for running the importer: the local store is the list of identifier
  strings it holds a record for; the remote answers a request with one item per
  requested string it can supply, at most \<open>limit\<close> of them when a limit is given; the
  write-back stores the items of the batch and hands back the identifiers it was given.
  Every version content is given by \<open>vers\<close>.
\<close>

definition toy_component :: "BitId \<Rightarrow> ModelComponent" where
  "toy_component i = \<lparr>mc_scope = scope i, mc_name = name i, mc_versions = [version i], mc_head = None\<rparr>"

fun objectHashes :: "ObjectList \<Rightarrow> string list" where
  "objectHashes [] = []"
| "objectHashes (RawObject h payload # os) = h # objectHashes os"
| "objectHashes (_ # os) = objectHashes os"

definition toy_fetch :: "(string \<Rightarrow> bool) \<Rightarrow> nat option \<Rightarrow> fetch_request \<Rightarrow> string list \<Rightarrow> (error + ObjectList) \<times> string list" where
  "toy_fetch supplies limit req w =
     (let found = filter supplies (concat (map snd (grouped req)))
      in (Inr (map (\<lambda>s. RawObject s []) (case limit of None \<Rightarrow> found | Some n \<Rightarrow> take n found)), w))"

definition toy_env :: "string \<Rightarrow> (string \<Rightarrow> bool) \<Rightarrow> nat option \<Rightarrow> (ComponentVersion \<Rightarrow> Version option) \<Rightarrow> (string list) env" where
  "toy_env self supplies limit vers =
     \<lparr>scope_name = self,
      sources_get = (\<lambda>w i. if idString i \<in> set w then Some (toy_component i) else None),
      getVersion = (\<lambda>w cv. vers cv),
      objects_has = (\<lambda>w h. h \<in> set w),
      fetch = toy_fetch supplies limit,
      writeManyComponentsToModel = (\<lambda>objectList p ids w. (ids, w @ objectHashes objectList)),
      syncWithLaneObject = (\<lambda>s l w. w),
      addMany = (\<lambda>os w. w @ objectHashes os),
      persist = (\<lambda>w. w)\<rparr>"

definition idA :: BitId where
  "idA = \<lparr>scope = ''r'', name = ''a'', version = ''1''\<rparr>"

definition idB :: BitId where
  "idB = \<lparr>scope = ''r'', name = ''b'', version = ''2''\<rparr>"

definition idL :: BitId where
  "idL = \<lparr>scope = ''me'', name = ''l'', version = ''1''\<rparr>"

definition noDeps :: Version where
  "noDeps = \<lparr>flattenedDependencies = [], flattenedDevDependencies = [], extensionsBitIds = []\<rparr>"

definition st0 :: "string list state" where
  "st0 = \<lparr>world = [], trace = []\<rparr>"

text \<open>
  Three remotes: one that supplies nothing, one that supplies everything it is asked
  for, and one that supplies one item per request.
\<close>

definition stuck_env :: "(string list) env" where
  "stuck_env = toy_env ''me'' (\<lambda>s. False) None (\<lambda>cv. Some noDeps)"

definition full_env :: "(string list) env" where
  "full_env = toy_env ''me'' (\<lambda>s. True) None (\<lambda>cv. Some noDeps)"

definition slow_env :: "(string list) env" where
  "slow_env = toy_env ''me'' (\<lambda>s. True) (Some 1) (\<lambda>cv. Some noDeps)"


definition requestedHashes :: "(string \<times> string list) list" where
  "requestedHashes = [(''r'', [''h1'', ''h2'', ''h1'']), (''q'', [''h3'']), (''p'', [''h2''])]"

definition stH :: "string list state" where
  "stH = \<lparr>world = [''h2''], trace = []\<rparr>"

text \<open>
  A store in which every record exists but no version content does until the first
  write-back; the world counts the write-backs.
\<close>

definition refetch_env :: "nat env" where
  "refetch_env =
     \<lparr>scope_name = ''me'',
      sources_get = (\<lambda>w i. Some (toy_component i)),
      getVersion = (\<lambda>w cv. if w = 0 then None else Some noDeps),
      objects_has = (\<lambda>w h. False),
      fetch = (\<lambda>req w. (Inr [], w)),
      writeManyComponentsToModel = (\<lambda>objectList p ids w. (ids, Suc w)),
      syncWithLaneObject = (\<lambda>s l w. w),
      addMany = (\<lambda>os w. w),
      persist = (\<lambda>w. w)\<rparr>"

definition stN :: "nat state" where
  "stN = \<lparr>world = 0, trace = []\<rparr>"

text \<open>
  A store in which every component has the tags 1 and 2 and a head \<open>h\<close>, and no
  version has dependencies.
\<close>

definition head_env :: "unit env" where
  "head_env =
     \<lparr>scope_name = ''me'',
      sources_get = (\<lambda>w i. Some \<lparr>mc_scope = scope i, mc_name = name i, mc_versions = [''1'', ''2''], mc_head = Some ''h''\<rparr>),
      getVersion = (\<lambda>w cv. Some noDeps),
      objects_has = (\<lambda>w h. False),
      fetch = (\<lambda>req w. (Inr [], w)),
      writeManyComponentsToModel = (\<lambda>objectList p ids w. (ids, w)),
      syncWithLaneObject = (\<lambda>s l w. w),
      addMany = (\<lambda>os w. w),
      persist = (\<lambda>w. w)\<rparr>"

definition idH :: BitId where
  "idH = \<lparr>scope = ''r'', name = ''a'', version = ''h''\<rparr>"

definition stU :: "unit state" where
  "stU = \<lparr>world = (), trace = []\<rparr>"

definition head_component :: ModelComponent where
  "head_component = \<lparr>mc_scope = ''r'', mc_name = ''a'', mc_versions = [''1'', ''2''], mc_head = Some ''h''\<rparr>"

definition head_vd :: "string \<Rightarrow> VersionDependencies" where
  "head_vd v = \<lparr>vd_component = \<lparr>cv_component = head_component, cv_version = v\<rparr>,
                dependencies = [], devDependencies = [], extensionsDependencies = [], sourceScope = ''r''\<rparr>"

text \<open>
  A store and a remote for dependency expansion: the component \<open>l\<close> of the local
  scope depends on the external \<open>a\<close> and the local \<open>m\<close> (in \<open>deps_env\<close>), or on \<open>m\<close>
  alone (in \<open>local_env\<close>).
\<close>

definition idM :: BitId where
  "idM = \<lparr>scope = ''me'', name = ''m'', version = ''1''\<rparr>"

definition depsOnAM :: Version where
  "depsOnAM = \<lparr>flattenedDependencies = [idA, idM], flattenedDevDependencies = [], extensionsBitIds = []\<rparr>"

definition deps_env :: "(string list) env" where
  "deps_env = toy_env ''me'' (\<lambda>s. True) None
     (\<lambda>cv. if mc_name (cv_component cv) = ''l'' then Some depsOnAM else Some noDeps)"

definition stLM :: "string list state" where
  "stLM = \<lparr>world = [''me/l@1'', ''me/m@1''], trace = []\<rparr>"


definition toy_cv :: "BitId \<Rightarrow> ComponentVersion" where
  "toy_cv i = toComponentVersion (toy_component i) (version i)"

definition toy_vd :: "BitId \<Rightarrow> ComponentVersion list \<Rightarrow> VersionDependencies" where
  "toy_vd i deps = \<lparr>vd_component = toy_cv i, dependencies = deps, devDependencies = [],
                    extensionsDependencies = [], sourceScope = scope i\<rparr>"

definition depsOnM :: Version where
  "depsOnM = \<lparr>flattenedDependencies = [idM], flattenedDevDependencies = [], extensionsBitIds = []\<rparr>"

definition local_env :: "(string list) env" where
  "local_env = toy_env ''me'' (\<lambda>s. True) None
     (\<lambda>cv. if mc_name (cv_component cv) = ''l'' then Some depsOnM else Some noDeps)"

text \<open>
  A remote that answers a lane request with the lane \<open>dev\<close> of scope \<open>r\<close>, which refers
  to the component \<open>a\<close>, and any other request like the remote that supplies everything.
\<close>

definition devLane :: Lane where
  "devLane = \<lparr>lane_scope = ''r'', lane_name = ''dev'', lane_components = [idA]\<rparr>"

definition lane_env :: "(string list) env" where
  "lane_env = (toy_env ''me'' (\<lambda>s. True) None (\<lambda>cv. Some noDeps))
     \<lparr>fetch := (\<lambda>req w. if options req = TypeLane then (Inr [LaneObject devLane], w)
                         else toy_fetch (\<lambda>s. True) None req w)\<rparr>"

definition stA :: "string list state" where
  "stA = \<lparr>world = [''r/a@1''], trace = []\<rparr>"

text \<open>
  The same remote with a lane that refers to the local component \<open>x\<close>, for which the
  store has no record, and to the external \<open>a\<close>.
\<close>

definition idX :: BitId where
  "idX = \<lparr>scope = ''me'', name = ''x'', version = ''1''\<rparr>"

definition devLaneX :: Lane where
  "devLaneX = \<lparr>lane_scope = ''r'', lane_name = ''dev'', lane_components = [idX, idA]\<rparr>"

definition laneX_env :: "(string list) env" where
  "laneX_env = (toy_env ''me'' (\<lambda>s. True) None (\<lambda>cv. Some noDeps))
     \<lparr>fetch := (\<lambda>req w. if options req = TypeLane then (Inr [LaneObject devLaneX], w)
                         else toy_fetch (\<lambda>s. True) None req w)\<rparr>"

section \<open>Basic facts\<close>

lemma removeNils_map_Some: "removeNils (map Some xs) = xs"
  by (induction xs) (simp_all add: removeNils_def)

lemma left_missing:
  "map fst (filter (\<lambda>d. \<not> True \<or> snd d = None) (sources_getMany env w ids)) = missing env w ids"
  by (induction ids) (auto simp: sources_getMany_def missing_def)

lemma left_all:
  "map fst (filter (\<lambda>d. \<not> False \<or> snd d = None) (sources_getMany env w ids)) = ids"
  by (induction ids) (auto simp: sources_getMany_def)

lemma left_nil_iff:
  "filter (\<lambda>d. \<not> True \<or> snd d = None) (sources_getMany env w ids) = [] \<longleftrightarrow> missing env w ids = []"
  using left_missing[of env w ids] by (metis map_is_Nil_conv)

lemma left_all_nonempty:
  "ids \<noteq> [] \<Longrightarrow> filter (\<lambda>d. \<not> False \<or> snd d = None) (sources_getMany env w ids) \<noteq> []"
  by (simp add: sources_getMany_def)

lemma group_strings:
  "set (concat (map snd (groupByScopeName sc str xs))) = str ` set xs"
  by (auto simp: groupByScopeName_def)

lemma objectHashes_raw: "objectHashes (map (\<lambda>s. RawObject s p) xs) = xs"
  by (induction xs) auto

lemma mapSeries_total:
  assumes "\<And>x s. f x s \<noteq> None"
  shows "mapSeries f xs st \<noteq> None"
proof (induction xs arbitrary: st)
  case Nil
  show ?case by simp
next
  case (Cons x xs)
  obtain r s1 where fx: "f x st = Some (r, s1)"
    using assms[of x st] by (cases "f x st") auto
  show ?case
  proof (cases r)
    case (Inl e)
    with fx show ?thesis by simp
  next
    case (Inr y)
    obtain r2 s2 where "mapSeries f xs s1 = Some (r2, s2)"
      using Cons[of s1] by (cases "mapSeries f xs s1") auto
    with fx Inr show ?thesis by (cases r2) simp_all
  qed
qed

lemma expandDef_total:
  assumes "\<And>c i s. componentToVersionDependencies env c i s \<noteq> None"
  shows "expandDef env d s \<noteq> None"
  using assms by (simp add: expandDef_def split: option.splits)

section \<open>Termination of the recursive resolver\<close>

text \<open>
  With local fetch allowed, a round either finds every identifier, or fails in the
  fetch, or recurses on a residual with fewer identifiers lacking a record: induction
  on that number.
\<close>

lemma shallow_cached_returns:
  assumes "progress env"
  shows "getExternalManyWithoutDependencies env ids True st \<noteq> None"
proof (induction "length (missing env (world st) ids)" arbitrary: ids st rule: less_induct)
  case less
  show ?case
  proof (cases "ids = [] \<or> missing env (world st) ids = []")
    case True
    then show ?thesis
      by (subst getExternalManyWithoutDependencies.simps) (auto simp: Let_def left_nil_iff[simplified])
  next
    case False
    then have ne: "ids \<noteq> []" and mne: "missing env (world st) ids \<noteq> []" by auto
    let ?req = "\<lparr>grouped = groupByScopeName scope idString (missing env (world st) ids),
                 options = WithoutDependencies, requestContext = Some (map idString ids)\<rparr>"
    obtain r w1 where f: "fetch env ?req (world st) = (r, w1)"
      by (cases "fetch env ?req (world st)")
    show ?thesis
    proof (cases r)
      case (Inl e)
      with f ne mne show ?thesis
        by (subst getExternalManyWithoutDependencies.simps)
           (simp add: Let_def left_nil_iff[simplified] left_missing[simplified] remotes_fetch_def)
    next
      case (Inr objectList)
      let ?st2 = "\<lambda>w2. \<lparr>world = w2, trace = trace st @ [Fetch ?req, WriteMany objectList None ids]\<rparr>"
      obtain nl w2 where wr: "writeManyComponentsToModel env objectList None ids w1 = (nl, w2)"
        by (cases "writeManyComponentsToModel env objectList None ids w1")
      from assms mne f Inr wr have "length (missing env w2 nl) < length (missing env (world st) ids)"
        unfolding progress_def by blast
      with less[of "?st2 w2" nl]
      have "getExternalManyWithoutDependencies env nl True (?st2 w2) \<noteq> None" by simp
      with f Inr wr ne mne show ?thesis
        by (subst getExternalManyWithoutDependencies.simps)
           (simp add: Let_def left_nil_iff[simplified] left_missing[simplified] remotes_fetch_def scope_writeMany_def)
    qed
  qed
qed

lemma shallow_returns:
  assumes "progress env"
  shows "getExternalManyWithoutDependencies env ids localFetch st \<noteq> None"
proof (cases localFetch)
  case True
  with shallow_cached_returns[OF assms] show ?thesis by simp
next
  case False
  show ?thesis
  proof (cases "ids = []")
    case True
    then show ?thesis by (subst getExternalManyWithoutDependencies.simps) simp
  next
    case ne: False
    let ?req = "\<lparr>grouped = groupByScopeName scope idString ids,
                 options = WithoutDependencies, requestContext = Some (map idString ids)\<rparr>"
    note lne = left_all_nonempty[OF ne, of env "world st"]
    obtain r w1 where f: "fetch env ?req (world st) = (r, w1)"
      by (cases "fetch env ?req (world st)")
    show ?thesis
    proof (cases r)
      case (Inl e)
      with f ne lne False show ?thesis
        by (subst getExternalManyWithoutDependencies.simps)
           (simp add: Let_def left_all[simplified] remotes_fetch_def)
    next
      case (Inr objectList)
      let ?st2 = "\<lambda>w2. \<lparr>world = w2, trace = trace st @ [Fetch ?req, WriteMany objectList None ids]\<rparr>"
      obtain nl w2 where wr: "writeManyComponentsToModel env objectList None ids w1 = (nl, w2)"
        by (cases "writeManyComponentsToModel env objectList None ids w1")
      have "getExternalManyWithoutDependencies env nl True (?st2 w2) \<noteq> None"
        by (rule shallow_cached_returns[OF assms])
      with f Inr wr ne lne False show ?thesis
        by (subst getExternalManyWithoutDependencies.simps)
           (simp add: Let_def left_all[simplified] remotes_fetch_def scope_writeMany_def)
    qed
  qed
qed

lemma deep_cached_returns:
  assumes "progress env" and tot: "\<And>c i s. componentToVersionDependencies env c i s \<noteq> None"
  shows "getExternalMany env ids True p st \<noteq> None"
proof (induction "length (missing env (world st) ids)" arbitrary: ids st p rule: less_induct)
  case less
  show ?case
  proof (cases "ids = [] \<or> missing env (world st) ids = []")
    case True
    have "mapSeries (expandDef env) (sources_getMany env (world st) ids) st \<noteq> None"
      by (rule mapSeries_total) (rule expandDef_total, rule tot)
    with True show ?thesis
      by (subst getExternalMany.simps) (auto simp: Let_def left_nil_iff[simplified])
  next
    case False
    then have ne: "ids \<noteq> []" and mne: "missing env (world st) ids \<noteq> []" by auto
    let ?req = "\<lparr>grouped = groupByScopeName scope idString (missing env (world st) ids),
                 options = NoOptions, requestContext = Some (map idString ids)\<rparr>"
    obtain r w1 where f: "fetch env ?req (world st) = (r, w1)"
      by (cases "fetch env ?req (world st)")
    show ?thesis
    proof (cases r)
      case (Inl e)
      with f ne mne show ?thesis
        by (subst getExternalMany.simps)
           (simp add: Let_def left_nil_iff[simplified] left_missing[simplified] remotes_fetch_def)
    next
      case (Inr objectList)
      let ?st2 = "\<lambda>w2. \<lparr>world = w2, trace = trace st @ [Fetch ?req, WriteMany objectList (Some p) ids]\<rparr>"
      obtain nl w2 where wr: "writeManyComponentsToModel env objectList (Some p) ids w1 = (nl, w2)"
        by (cases "writeManyComponentsToModel env objectList (Some p) ids w1")
      from assms(1) mne f Inr wr have "length (missing env w2 nl) < length (missing env (world st) ids)"
        unfolding progress_def by blast
      with less[of "?st2 w2" nl True]
      have "getExternalMany env nl True True (?st2 w2) \<noteq> None" by simp
      with f Inr wr ne mne show ?thesis
        by (subst getExternalMany.simps)
           (simp add: Let_def left_nil_iff[simplified] left_missing[simplified] remotes_fetch_def scope_writeMany_def)
    qed
  qed
qed

lemma deep_returns:
  assumes "progress env" and tot: "\<And>c i s. componentToVersionDependencies env c i s \<noteq> None"
  shows "getExternalMany env ids localFetch p st \<noteq> None"
proof (cases localFetch)
  case True
  with deep_cached_returns[OF assms] show ?thesis by simp
next
  case False
  show ?thesis
  proof (cases "ids = []")
    case True
    then show ?thesis by (subst getExternalMany.simps) simp
  next
    case ne: False
    let ?req = "\<lparr>grouped = groupByScopeName scope idString ids,
                 options = NoOptions, requestContext = Some (map idString ids)\<rparr>"
    note lne = left_all_nonempty[OF ne, of env "world st"]
    obtain r w1 where f: "fetch env ?req (world st) = (r, w1)"
      by (cases "fetch env ?req (world st)")
    show ?thesis
    proof (cases r)
      case (Inl e)
      with f ne lne False show ?thesis
        by (subst getExternalMany.simps)
           (simp add: Let_def left_all[simplified] remotes_fetch_def)
    next
      case (Inr objectList)
      let ?st2 = "\<lambda>w2. \<lparr>world = w2, trace = trace st @ [Fetch ?req, WriteMany objectList (Some p) ids]\<rparr>"
      obtain nl w2 where wr: "writeManyComponentsToModel env objectList (Some p) ids w1 = (nl, w2)"
        by (cases "writeManyComponentsToModel env objectList (Some p) ids w1")
      have "getExternalMany env nl True True (?st2 w2) \<noteq> None"
        by (rule deep_cached_returns[OF assms])
      with f Inr wr ne lne False show ?thesis
        by (subst getExternalMany.simps)
           (simp add: Let_def left_all[simplified] remotes_fetch_def scope_writeMany_def)
    qed
  qed
qed

text \<open>The remote that supplies everything makes progress; its expansions return.\<close>

lemma toy_progress: "progress (toy_env self (\<lambda>s. True) None vers)"
  unfolding progress_def
proof (intro allI impI, elim conjE)
  fix ids w opts ctx p objectList w1 nonLaneIds w2
  let ?env = "toy_env self (\<lambda>s. True) None vers"
  assume m: "missing ?env w ids \<noteq> []"
    and f: "fetch ?env \<lparr>grouped = groupByScopeName scope idString (missing ?env w ids),
                         options = opts, requestContext = ctx\<rparr> w = (Inr objectList, w1)"
    and wr: "writeManyComponentsToModel ?env objectList p ids w1 = (nonLaneIds, w2)"
  from f have ol: "objectHashes objectList =
      concat (map snd (groupByScopeName scope idString (missing ?env w ids)))" and w1: "w1 = w"
    by (auto simp: toy_env_def toy_fetch_def objectHashes_raw)
  from wr have nl: "nonLaneIds = ids" and w2: "w2 = w1 @ objectHashes objectList"
    by (auto simp: toy_env_def)
  have "set w2 = set w \<union> idString ` set (missing ?env w ids)"
    unfolding w2 ol w1 using group_strings[of scope idString "missing ?env w ids"] by auto
  then have "missing ?env w2 ids = []"
    by (auto simp: missing_def toy_env_def filter_empty_conv)
  with m nl show "length (missing ?env w2 nonLaneIds) < length (missing ?env w ids)" by simp
qed

lemma toy_expand_total:
  "componentToVersionDependencies (toy_env self supplies limit (\<lambda>cv. Some noDeps)) c i s \<noteq> None"
  unfolding componentToVersionDependencies_def
  by (subst resolveCall.simps)
     (simp add: toy_env_def collectDependencies_def importManyWithoutDependencies_def noDeps_def)

text \<open>
  The remote that supplies nothing: every round of the resolver on an identifier
  without a record ends in the same call again.
\<close>

lemma stuck_never_returns:
  assumes run: "getExternalMany stuck_env [idA] lf p st = Some r"
    and w0: "idString idA \<notin> set (world st)"
  shows False
proof -
  let ?P = "\<lambda>(env :: string list env) ids (lf :: bool) (p :: bool) (st :: string list state)
      (r :: (error + VersionDependencies list) \<times> string list state).
      env = stuck_env \<and> ids = [idA] \<and> idString idA \<notin> set (world st) \<longrightarrow> False"
  have "?P stuck_env [idA] lf p st r"
  proof (rule getExternalMany.raw_induct[where P = ?P, OF _ run])
    fix f and env :: "string list env" and ids lf p st r
    assume IH: "\<And>env ids lf p st r. f env ids lf p st = Some r \<Longrightarrow> ?P env ids lf p st r"
      and body: "(if ids = [] then Some (Inr [], st)
        else let componentDefs = sources_getMany env (world st) ids;
                 left = filter (\<lambda>d. \<not> lf \<or> snd d = None) componentDefs
             in if left = [] then mapSeries (expandDef env) componentDefs st
                else case remotes_fetch env
                           \<lparr>grouped = groupByScopeName scope idString (map fst left),
                            options = NoOptions,
                            requestContext = Some (map idString ids)\<rparr> st of
                     (Inl e, st1) \<Rightarrow> Some (Inl e, st1)
                   | (Inr objectList, st1) \<Rightarrow>
                       case scope_writeMany env objectList (Some p) ids st1 of
                         (nonLaneIds, st2) \<Rightarrow> f env nonLaneIds True True st2) = Some r"
    show "?P env ids lf p st r"
    proof (intro impI, elim conjE)
      assume e: "env = stuck_env" and i: "ids = [idA]" and w: "idString idA \<notin> set (world st)"
      from body have "f stuck_env [idA] True True
          \<lparr>world = world st,
           trace = trace st @
             [Fetch \<lparr>grouped = groupByScopeName scope idString [idA], options = NoOptions,
                     requestContext = Some [idString idA]\<rparr>,
              WriteMany [] (Some p) [idA]]\<rparr> = Some r"
        by (simp add: e i w sources_getMany_def stuck_env_def toy_env_def remotes_fetch_def
              toy_fetch_def scope_writeMany_def)
      from IH[OF this] w show False by simp
    qed
  qed
  with w0 show False by simp
qed

text \<open>The shallow resolver behaves the same with that remote.\<close>

lemma shallow_stuck_never_returns:
  assumes run: "getExternalManyWithoutDependencies stuck_env [idA] lf st = Some r"
    and w0: "idString idA \<notin> set (world st)"
  shows False
proof -
  let ?P = "\<lambda>(env :: string list env) ids (lf :: bool) (st :: string list state)
      (r :: (error + ComponentVersion list) \<times> string list state).
      env = stuck_env \<and> ids = [idA] \<and> idString idA \<notin> set (world st) \<longrightarrow> False"
  have "?P stuck_env [idA] lf st r"
  proof (rule getExternalManyWithoutDependencies.raw_induct[where P = ?P, OF _ run], goal_cases)
    case (1 f env ids lf st r)
    note IH = 1(1) and body = 1(2)
    show ?case
    proof (intro impI, elim conjE)
      assume e: "env = stuck_env" and i: "ids = [idA]" and w: "idString idA \<notin> set (world st)"
      from body have "f stuck_env [idA] True
          \<lparr>world = world st,
           trace = trace st @
             [Fetch \<lparr>grouped = groupByScopeName scope idString [idA], options = WithoutDependencies,
                     requestContext = Some [idString idA]\<rparr>,
              WriteMany [] None [idA]]\<rparr> = Some r"
        by (simp add: e i w sources_getMany_def stuck_env_def toy_env_def remotes_fetch_def
              toy_fetch_def scope_writeMany_def)
      from IH[OF this] w show False by simp
    qed
  qed
  with w0 show False by simp
qed

lemma shallow_no_progress_never_returns:
  "getExternalManyWithoutDependencies stuck_env [idA] True st0 = None"
proof (cases "getExternalManyWithoutDependencies stuck_env [idA] True st0")
  case None
  then show ?thesis .
next
  case (Some r)
  from shallow_stuck_never_returns[OF Some] show ?thesis by (simp add: st0_def)
qed

section \<open>Non-termination, the persist flag and dependency errors\<close>

text \<open>
  C1 (as stated, refuted). The claim says the resolver terminates on every input,
  treating a fetch that brings nothing new for a non-empty residual as a no-progress
  failure. With a remote that supplies nothing, \<^verbatim>\<open>_getExternalMany\<close> on one external
  identifier without a local record returns neither a result nor an error: it never
  returns.
\<close>

theorem C1_no_progress_never_returns:
  "getExternalMany stuck_env [idA] True True st0 = None"
proof (cases "getExternalMany stuck_env [idA] True True st0")
  case None
  then show ?thesis .
next
  case (Some r)
  from stuck_never_returns[OF Some] show ?thesis by (simp add: st0_def)
qed

text \<open>
  C1 (amended). The resolver has no progress check; it returns, with a result or with
  the error of a failed fetch, whenever every round-trip strictly shrinks the number of
  identifiers of the residual that lack a local record. This holds for the shallow
  resolver outright and for the resolver with dependencies as soon as the expansion
  of each found record returns.
\<close>

theorem C1_resolver_returns_under_progress:
  assumes "progress env"
  shows "getExternalManyWithoutDependencies env ids localFetch st \<noteq> None \<and>
         ((\<forall>c i s. componentToVersionDependencies env c i s \<noteq> None) \<longrightarrow>
            getExternalMany env ids localFetch persistFlag st \<noteq> None)"
  using shallow_returns[OF assms] deep_returns[OF assms] by blast

theorem C1_resolver_returns_witness:
  "progress full_env \<and>
   getExternalManyWithoutDependencies full_env [idA, idB] False st0 \<noteq> None \<and>
   getExternalMany full_env [idA, idB] False True st0 \<noteq> None"
proof -
  have p: "progress full_env"
    unfolding full_env_def by (rule toy_progress)
  have t: "\<forall>c i s. componentToVersionDependencies full_env c i s \<noteq> None"
    unfolding full_env_def by (simp add: toy_expand_total)
  from C1_resolver_returns_under_progress[OF p, of "[idA, idB]" False st0 True] t p
  show ?thesis by blast
qed

text \<open>
  C5 (the code departs from the claim). The claim says that with \<^verbatim>\<open>persist = false\<close>
  no round-trip of the recursion writes with persistence enabled. The recursive call of
  \<^verbatim>\<open>_getExternalMany\<close> does not pass \<^verbatim>\<open>persist\<close> on, so the second round writes with
  the default, true: with a remote that supplies one record per request, two external
  identifiers and \<^verbatim>\<open>persist = false\<close>, the second write-back is made with
  \<^verbatim>\<open>persist = true\<close>.
\<close>

theorem C5_second_round_persists:
  "map_option (\<lambda>r. trace (snd r)) (getExternalMany slow_env [idA, idB] True False st0) =
     Some [Fetch \<lparr>grouped = [(''r'', [''r/a@1'', ''r/b@2''])], options = NoOptions,
                  requestContext = Some [''r/a@1'', ''r/b@2'']\<rparr>,
           WriteMany [RawObject ''r/a@1'' []] (Some False) [idA, idB],
           Fetch \<lparr>grouped = [(''r'', [''r/b@2''])], options = NoOptions,
                  requestContext = Some [''r/a@1'', ''r/b@2'']\<rparr>,
           WriteMany [RawObject ''r/b@2'' []] (Some True) [idA, idB]]"
  by code_simp

text \<open>
  C7 (as stated, refuted). The claim says the DependencyNotFound error wraps the
  failing identifier for every failure of the underlying import. The error is built
  from the \<^verbatim>\<open>id\<close> property of the caught error, and the ShowDoctorError that
  \<^verbatim>\<open>componentToVersionDependencies\<close> throws for a local record without its version
  content has none: the DependencyNotFound then wraps nothing.
\<close>

theorem C7_wraps_no_identifier:
  "importMany refetch_env [Some idL] True True stN =
     Some (Inl (ShowDoctorError ''Version 1 of me/l was not found in scope me''), stN) \<and>
   importDependencies refetch_env [Some idL] stN = Some (Inl (DependencyNotFound None), stN)"
  by code_simp

text \<open>
  C7 (amended). Whatever error the underlying \<^verbatim>\<open>importMany\<close> fails with,
  \<^verbatim>\<open>importDependencies\<close> fails with DependencyNotFound built from the \<^verbatim>\<open>id\<close> of that
  error, except that RemoteScopeNotFound and PermissionDenied are passed through as they
  are. The \<^verbatim>\<open>id\<close> is the failing identifier when the error is ComponentNotFound; it is
  absent when the error is the ShowDoctorError of a missing version content. The state
  is the one the single call of \<^verbatim>\<open>importMany\<close> left: nothing is retried.
\<close>

theorem C7_importDependencies_wraps:
  assumes "importMany env deps True True st = Some (Inl e, st1)"
  shows "importDependencies env deps st =
           Some (Inl (if (\<exists>s. e = RemoteScopeNotFound s) \<or> (\<exists>s. e = PermissionDenied s) then e
                      else DependencyNotFound (error_id e)), st1)
         \<and> (\<forall>i. e = ComponentNotFound i \<longrightarrow>
               importDependencies env deps st = Some (Inl (DependencyNotFound (Some i)), st1))
         \<and> (\<forall>m. e = ShowDoctorError m \<longrightarrow>
               importDependencies env deps st = Some (Inl (DependencyNotFound None), st1))"
  using assms by (cases e) (simp_all add: importDependencies_def)

theorem C7_importDependencies_witness:
  "importDependencies stuck_env [Some idL] st0 =
     Some (Inl (DependencyNotFound (Some ''me/l@1'')), st0)"
proof -
  have "importMany stuck_env [Some idL] True True st0 = Some (Inl (ComponentNotFound ''me/l@1''), st0)"
    by code_simp
  from C7_importDependencies_wraps[OF this] show ?thesis by simp
qed

section \<open>Raw objects\<close>

lemma keys_uniqBy: "f ` set (uniqBy f seen xs) = f ` set xs - set seen"
  by (induction f seen xs rule: uniqBy.induct) auto

lemma set_uniqBy: "set (uniqBy f seen xs) \<subseteq> set xs"
  by (induction f seen xs rule: uniqBy.induct) auto

lemma distinct_uniqBy: "distinct (map f (uniqBy f seen xs))"
proof (induction f seen xs rule: uniqBy.induct)
  case (1 f seen)
  show ?case by simp
next
  case (2 f seen x xs)
  show ?case
  proof (cases "f x \<in> set seen")
    case True
    with 2 show ?thesis by simp
  next
    case False
    have "f x \<notin> f ` set (uniqBy f (f x # seen) xs)"
      unfolding keys_uniqBy by simp
    with False 2 show ?thesis by simp
  qed
qed

lemma missingHashes_set: "set (missingHashes env w hs) = {h \<in> set hs. \<not> objects_has env w h}"
  using keys_uniqBy[of "\<lambda>h. h" "[]" hs] by (auto simp: missingHashes_def)

lemma missingHashes_distinct: "distinct (missingHashes env w hs)"
  using distinct_uniqBy[of "\<lambda>h. h" "[]" hs] by (simp add: missingHashes_def)

lemma missingHashes_nil: "missingHashes env w hs = [] \<longleftrightarrow> (\<forall>h \<in> set hs. objects_has env w h)"
proof -
  have "missingHashes env w hs = [] \<longleftrightarrow> set (missingHashes env w hs) = {}" by simp
  also have "\<dots> \<longleftrightarrow> (\<forall>h \<in> set hs. objects_has env w h)"
    unfolding missingHashes_set by blast
  finally show ?thesis .
qed

lemma groupedHashedMissing_entries:
  "(s, m) \<in> set (groupedHashedMissing env w g) \<longleftrightarrow>
     m \<noteq> [] \<and> (\<exists>hs. (s, hs) \<in> set g \<and> m = missingHashes env w hs)"
  by (auto simp: groupedHashedMissing_def)

lemma groupedHashedMissing_nil:
  "groupedHashedMissing env w g = [] \<longleftrightarrow> (\<forall>(s, hs) \<in> set g. \<forall>h \<in> set hs. objects_has env w h)"
proof -
  have "groupedHashedMissing env w g = [] \<longleftrightarrow> (\<forall>(s, hs) \<in> set g. missingHashes env w hs = [])"
    by (auto simp: groupedHashedMissing_def filter_empty_conv)
  then show ?thesis by (simp add: missingHashes_nil)
qed

text \<open>
  C9. \<^verbatim>\<open>importManyObjects\<close>: if every requested hash is in the local store, nothing
  happens, neither a fetch nor a persist. Otherwise there is exactly one call of
  \<^verbatim>\<open>remotes.fetch\<close>, of type object, whose request holds one group per scope that
  has a missing hash; a group is the scope's requested hashes without duplicates and
  without those the store has. If the fetch fails, that is all; if it succeeds, the
  fetched objects are added in one \<^verbatim>\<open>addMany\<close> and persisted by one \<^verbatim>\<open>persist\<close>, for
  all scopes together.
\<close>

theorem C9_importManyObjects:
  "(if \<forall>(s, hs) \<in> set g. \<forall>h \<in> set hs. objects_has env (world st) h
    then importManyObjects env g st = Some (Inr (), st)
    else (let req = \<lparr>grouped = groupedHashedMissing env (world st) g, options = TypeObject,
                     requestContext = None\<rparr>
          in case fetch env req (world st) of
               (Inl e, w1) \<Rightarrow>
                 importManyObjects env g st =
                   Some (Inl e, \<lparr>world = w1, trace = trace st @ [Fetch req]\<rparr>)
             | (Inr objectList, w1) \<Rightarrow>
                 importManyObjects env g st =
                   Some (Inr (), \<lparr>world = persist env (addMany env objectList w1),
                                   trace = trace st @ [Fetch req, AddMany objectList, Persist]\<rparr>)))
   \<and> (\<forall>s m. (s, m) \<in> set (groupedHashedMissing env (world st) g) \<longleftrightarrow>
          m \<noteq> [] \<and> (\<exists>hs. (s, hs) \<in> set g \<and> m = missingHashes env (world st) hs))
   \<and> (\<forall>hs. distinct (missingHashes env (world st) hs) \<and>
          set (missingHashes env (world st) hs) = {h \<in> set hs. \<not> objects_has env (world st) h})"
proof (intro conjI)
  show "if \<forall>(s, hs) \<in> set g. \<forall>h \<in> set hs. objects_has env (world st) h
    then importManyObjects env g st = Some (Inr (), st)
    else (let req = \<lparr>grouped = groupedHashedMissing env (world st) g, options = TypeObject,
                     requestContext = None\<rparr>
          in case fetch env req (world st) of
               (Inl e, w1) \<Rightarrow>
                 importManyObjects env g st =
                   Some (Inl e, \<lparr>world = w1, trace = trace st @ [Fetch req]\<rparr>)
             | (Inr objectList, w1) \<Rightarrow>
                 importManyObjects env g st =
                   Some (Inr (), \<lparr>world = persist env (addMany env objectList w1),
                                   trace = trace st @ [Fetch req, AddMany objectList, Persist]\<rparr>))"
    using groupedHashedMissing_nil[of env "world st" g]
    by (auto simp: importManyObjects_def Let_def remotes_fetch_def split: prod.splits sum.splits)
next
  show "\<forall>s m. (s, m) \<in> set (groupedHashedMissing env (world st) g) \<longleftrightarrow>
          m \<noteq> [] \<and> (\<exists>hs. (s, hs) \<in> set g \<and> m = missingHashes env (world st) hs)"
    by (simp add: groupedHashedMissing_entries)
next
  show "\<forall>hs. distinct (missingHashes env (world st) hs) \<and>
          set (missingHashes env (world st) hs) = {h \<in> set hs. \<not> objects_has env (world st) h}"
    by (simp add: missingHashes_set missingHashes_distinct)
qed

theorem C9_importManyObjects_witness:
  "importManyObjects full_env requestedHashes stH =
     Some (Inr (), \<lparr>world = [''h2'', ''h1'', ''h3''],
                     trace = [Fetch \<lparr>grouped = [(''r'', [''h1'']), (''q'', [''h3''])],
                                     options = TypeObject, requestContext = None\<rparr>,
                              AddMany [RawObject ''h1'' [], RawObject ''h3'' []], Persist]\<rparr>)"
proof -
  have n: "\<not> (\<forall>(s, hs) \<in> set requestedHashes. \<forall>h \<in> set hs. objects_has full_env (world stH) h)"
    by (simp add: requestedHashes_def stH_def full_env_def toy_env_def)
  have m: "groupedHashedMissing full_env (world stH) requestedHashes = [(''r'', [''h1'']), (''q'', [''h3''])]"
    by code_simp
  have f: "fetch full_env \<lparr>grouped = [(''r'', [''h1'']), (''q'', [''h3''])], options = TypeObject,
                           requestContext = None\<rparr> (world stH) =
             (Inr [RawObject ''h1'' [], RawObject ''h3'' []], [''h2''])"
    by code_simp
  have a: "persist full_env (addMany full_env [RawObject ''h1'' [], RawObject ''h3'' []] [''h2'']) =
             [''h2'', ''h1'', ''h3'']"
    by code_simp
  have t: "trace stH = []"
    by (simp add: stH_def)
  from C9_importManyObjects[of requestedHashes full_env stH] n
  show ?thesis by (simp add: m f a t Let_def)
qed

section \<open>Dependency expansion\<close>

text \<open>The two source functions, as they are written.\<close>

lemma componentToVersionDependencies_eq:
  "componentToVersionDependencies env component i st =
     (let versionComp = toComponentVersion component (version i)
      in case getVersion env (world st) versionComp of
           None \<Rightarrow>
             if mc_scope component = scope_name env
             then Some (Inl (ShowDoctorError (versionNotFoundMessage env component versionComp)), st)
             else getExternal env i False st
         | Some ver \<Rightarrow> collectDependencies env versionComp (scope i) ver st)"
  unfolding componentToVersionDependencies_def getExternal_def
  by (subst resolveCall.simps) (simp add: Let_def)

lemma getExternal_eq:
  "getExternal env i localFetch st =
     (let component = sources_get env (world st) i
      in if component \<noteq> None \<and> localFetch
         then componentToVersionDependencies env (the component) i st
         else
           (case remotes_fetch env
                   \<lparr>grouped = groupByScopeName scope idString [i],
                    options = NoOptions, requestContext = None\<rparr> st of
              (Inl e, st1) \<Rightarrow> Some (Inl e, st1)
            | (Inr objectList, st1) \<Rightarrow>
                (case scope_writeMany env objectList (Some True) [i] st1 of
                   (nonLaneIds, st2) \<Rightarrow> getExternal env i True st2)))"
  unfolding componentToVersionDependencies_def getExternal_def
  by (subst resolveCall.simps) (simp add: Let_def)

text \<open>
  C6. The version content of the identifier's exact version is absent although the
  component record is at hand (the record is owned by the identifier's scope, as every
  record the store returns for an identifier is). If the identifier is local, the
  expansion fails with the consistency error (ShowDoctorError) and the state is
  untouched: nothing is fetched. If it is external, that single identifier is fetched
  whatever the store holds for it, the batch is written back, and the expansion goes on
  from the record the store then has (it fetches again if there is none).
\<close>

theorem C6_missing_version_content:
  assumes absent: "getVersion env (world st) (toComponentVersion component (version i)) = None"
    and own: "mc_scope component = scope i"
  shows "if isLocal (scope_name env) i
         then componentToVersionDependencies env component i st =
                Some (Inl (ShowDoctorError
                  (versionNotFoundMessage env component (toComponentVersion component (version i)))), st)
         else componentToVersionDependencies env component i st =
                (case remotes_fetch env
                        \<lparr>grouped = groupByScopeName scope idString [i],
                         options = NoOptions, requestContext = None\<rparr> st of
                   (Inl e, st1) \<Rightarrow> Some (Inl e, st1)
                 | (Inr objectList, st1) \<Rightarrow>
                     (case scope_writeMany env objectList (Some True) [i] st1 of
                        (nonLaneIds, st2) \<Rightarrow>
                          (case sources_get env (world st2) i of
                             Some c \<Rightarrow> componentToVersionDependencies env c i st2
                           | None \<Rightarrow> getExternal env i True st2)))"
proof (cases "isLocal (scope_name env) i")
  case True
  with absent own show ?thesis
    by (simp add: componentToVersionDependencies_eq isLocal_def)
next
  case False
  have step: "getExternal env i True s =
      (case sources_get env (world s) i of
         Some c \<Rightarrow> componentToVersionDependencies env c i s
       | None \<Rightarrow> getExternal env i True s)" for s
  proof (cases "sources_get env (world s) i")
    case None
    then show ?thesis by simp
  next
    case (Some c)
    then show ?thesis by (subst getExternal_eq) simp
  qed
  have "componentToVersionDependencies env component i st = getExternal env i False st"
    using False absent own by (simp add: componentToVersionDependencies_eq isLocal_def)
  also have "\<dots> = (case remotes_fetch env
                        \<lparr>grouped = groupByScopeName scope idString [i],
                         options = NoOptions, requestContext = None\<rparr> st of
                   (Inl e, st1) \<Rightarrow> Some (Inl e, st1)
                 | (Inr objectList, st1) \<Rightarrow>
                     (case scope_writeMany env objectList (Some True) [i] st1 of
                        (nonLaneIds, st2) \<Rightarrow> getExternal env i True st2))"
    by (subst getExternal_eq) simp
  also have "\<dots> = (case remotes_fetch env
                        \<lparr>grouped = groupByScopeName scope idString [i],
                         options = NoOptions, requestContext = None\<rparr> st of
                   (Inl e, st1) \<Rightarrow> Some (Inl e, st1)
                 | (Inr objectList, st1) \<Rightarrow>
                     (case scope_writeMany env objectList (Some True) [i] st1 of
                        (nonLaneIds, st2) \<Rightarrow>
                          (case sources_get env (world st2) i of
                             Some c \<Rightarrow> componentToVersionDependencies env c i st2
                           | None \<Rightarrow> getExternal env i True st2)))"
    using step by (simp split: prod.splits sum.splits)
  finally show ?thesis using False by simp
qed

theorem C6_missing_version_content_witness:
  "componentToVersionDependencies refetch_env (toy_component idL) idL stN =
     Some (Inl (ShowDoctorError ''Version 1 of me/l was not found in scope me''), stN) \<and>
   componentToVersionDependencies refetch_env (toy_component idA) idA stN =
     Some (Inr \<lparr>vd_component = \<lparr>cv_component = toy_component idA, cv_version = ''1''\<rparr>,
                dependencies = [], devDependencies = [], extensionsDependencies = [],
                sourceScope = ''r''\<rparr>,
           \<lparr>world = 1,
            trace = [Fetch \<lparr>grouped = [(''r'', [''r/a@1''])], options = NoOptions, requestContext = None\<rparr>,
                     WriteMany [] (Some True) [idA]]\<rparr>)"
proof -
  have absent: "getVersion refetch_env (world stN) cv = None" for cv
    by (simp add: refetch_env_def stN_def)
  have ownL: "mc_scope (toy_component idL) = scope idL" and ownA: "mc_scope (toy_component idA) = scope idA"
    by (simp_all add: toy_component_def)
  have locL: "isLocal (scope_name refetch_env) idL" and extA: "\<not> isLocal (scope_name refetch_env) idA"
    by (simp_all add: isLocal_def refetch_env_def idL_def idA_def)
  have msg: "versionNotFoundMessage refetch_env (toy_component idL) (toComponentVersion (toy_component idL) (version idL)) =
      ''Version 1 of me/l was not found in scope me''"
    by code_simp
  have rest: "(case remotes_fetch refetch_env
                        \<lparr>grouped = groupByScopeName scope idString [idA],
                         options = NoOptions, requestContext = None\<rparr> stN of
                   (Inl e, st1) \<Rightarrow> Some (Inl e, st1)
                 | (Inr objectList, st1) \<Rightarrow>
                     (case scope_writeMany refetch_env objectList (Some True) [idA] st1 of
                        (nonLaneIds, st2) \<Rightarrow>
                          (case sources_get refetch_env (world st2) idA of
                             Some c \<Rightarrow> componentToVersionDependencies refetch_env c idA st2
                           | None \<Rightarrow> getExternal refetch_env idA True st2))) =
     Some (Inr \<lparr>vd_component = \<lparr>cv_component = toy_component idA, cv_version = ''1''\<rparr>,
                dependencies = [], devDependencies = [], extensionsDependencies = [],
                sourceScope = ''r''\<rparr>,
           \<lparr>world = 1,
            trace = [Fetch \<lparr>grouped = [(''r'', [''r/a@1''])], options = NoOptions, requestContext = None\<rparr>,
                     WriteMany [] (Some True) [idA]]\<rparr>)"
    by code_simp
  from C6_missing_version_content[OF absent ownL] locL msg
  have l: "componentToVersionDependencies refetch_env (toy_component idL) idL stN =
     Some (Inl (ShowDoctorError ''Version 1 of me/l was not found in scope me''), stN)"
    by simp
  from C6_missing_version_content[OF absent ownA] extA rest
  have a: "componentToVersionDependencies refetch_env (toy_component idA) idA stN =
     Some (Inr \<lparr>vd_component = \<lparr>cv_component = toy_component idA, cv_version = ''1''\<rparr>,
                dependencies = [], devDependencies = [], extensionsDependencies = [],
                sourceScope = ''r''\<rparr>,
           \<lparr>world = 1,
            trace = [Fetch \<lparr>grouped = [(''r'', [''r/a@1''])], options = NoOptions, requestContext = None\<rparr>,
                     WriteMany [] (Some True) [idA]]\<rparr>)"
    by simp
  from l a show ?thesis by simp
qed

section \<open>Multi-version import\<close>

lemma removeNils_map_if:
  "removeNils (map (\<lambda>v. if v = x then None else Some (g v)) vs) = map g (filter (\<lambda>v. v \<noteq> x) vs)"
  by (induction vs) (simp_all add: removeNils_def)

lemma idsWithAllVersions_set:
  "set (idsWithAllVersions vd) =
     {changeVersion (cv_id (vd_component vd)) v | v.
        v \<in> set (mc_versions (cv_component (vd_component vd))) \<and> v \<noteq> cv_version (vd_component vd)}
     \<union> {changeVersion (cv_id (vd_component vd)) h | h. mc_head (cv_component (vd_component vd)) = Some h}"
  by (auto simp: idsWithAllVersions_def removeNils_map_if Let_def split: option.splits)

lemma dependenciesOnly_set:
  "set (dependenciesOnly ids arr) =
     {i. (\<exists>v \<in> set arr. \<exists>d \<in> set (allDependencies v). i = cv_id d) \<and>
         \<not> (\<exists>j \<in> set (removeNils ids). scope j = scope i \<and> name j = name i)}"
  by (auto simp: dependenciesOnly_def hasWithoutVersion_def)

text \<open>
  C8 (the code departs from the claim). The claim says the expanded identifier set
  leaves out the version already resolved. The loop compares only the tags with it
  (\<^verbatim>\<open>// imported already\<close>); the head is pushed whenever there is one, without that
  check. For a component whose head is \<open>h\<close>, resolving the identifier with version \<open>h\<close>
  gives an expanded set that contains that identifier again, and the deep import
  returns the result for it twice.
\<close>

theorem C8_head_not_excluded:
  "importMany head_env [Some idH] True True stU = Some (Inr [head_vd ''h''], stU) \<and>
   cv_id (vd_component (head_vd ''h'')) = idH \<and>
   idH \<in> set (allIdsWithAllVersions [head_vd ''h'']) \<and>
   importManyWithAllVersions head_env [Some idH] True True stU =
     Some (Inr [head_vd ''h'', head_vd ''1'', head_vd ''2'', head_vd ''h''], stU)"
  by code_simp

text \<open>
  What \<^verbatim>\<open>importManyWithAllVersions\<close> computes from the results of its first import:
  the expanded set holds, for each result, the tags of the record other than the
  resolved version, and the head; in shallow mode the expanded set is imported without
  dependencies; in deep mode, after the import of the expanded set, the function calls
  itself once, on the dependency identifiers of all results so far whose scope and
  name, the version ignored, match no requested identifier, made unique by string form.
\<close>

lemma expanded_set_and_recursion:
  assumes ne: "removeNils ids \<noteq> []"
    and first: "importMany env (map Some (removeNils ids)) cache True st = Some (Inr arr, st1)"
  shows "set (allIdsWithAllVersions arr) =
           (\<Union>vd \<in> set arr.
              {changeVersion (cv_id (vd_component vd)) v | v.
                 v \<in> set (mc_versions (cv_component (vd_component vd))) \<and> v \<noteq> cv_version (vd_component vd)}
              \<union> {changeVersion (cv_id (vd_component vd)) h | h. mc_head (cv_component (vd_component vd)) = Some h})
         \<and> importManyWithAllVersions env ids cache False st =
             (case importManyWithoutDependencies env (map Some (allIdsWithAllVersions arr)) True st1 of
                None \<Rightarrow> None
              | Some (Inl e, st2) \<Rightarrow> Some (Inl e, st2)
              | Some (Inr cvs, st2) \<Rightarrow> Some (Inr arr, st2))
         \<and> (\<forall>older st2.
               importMany env (map Some (allIdsWithAllVersions arr)) cache True st1 = Some (Inr older, st2) \<longrightarrow>
               (\<exists>deps.
                  importManyWithAllVersions env ids cache True st =
                    (case importManyWithAllVersions env (map Some deps) True False st2 of
                       None \<Rightarrow> None
                     | Some (Inl e, st3) \<Rightarrow> Some (Inl e, st3)
                     | Some (Inr r, st3) \<Rightarrow> Some (Inr ((arr @ older) @ r), st3))
                  \<and> distinct (map idString deps)
                  \<and> set deps \<subseteq> set (dependenciesOnly ids (arr @ older))
                  \<and> idString ` set deps = idString ` set (dependenciesOnly ids (arr @ older))
                  \<and> set (dependenciesOnly ids (arr @ older)) =
                      {i. (\<exists>v \<in> set (arr @ older). \<exists>d \<in> set (allDependencies v). i = cv_id d) \<and>
                          \<not> (\<exists>j \<in> set (removeNils ids). scope j = scope i \<and> name j = name i)}))"
proof (intro conjI allI impI)
  show "set (allIdsWithAllVersions arr) =
           (\<Union>vd \<in> set arr.
              {changeVersion (cv_id (vd_component vd)) v | v.
                 v \<in> set (mc_versions (cv_component (vd_component vd))) \<and> v \<noteq> cv_version (vd_component vd)}
              \<union> {changeVersion (cv_id (vd_component vd)) h | h. mc_head (cv_component (vd_component vd)) = Some h})"
    unfolding allIdsWithAllVersions_def by (simp add: idsWithAllVersions_set)
next
  show "importManyWithAllVersions env ids cache False st =
             (case importManyWithoutDependencies env (map Some (allIdsWithAllVersions arr)) True st1 of
                None \<Rightarrow> None
              | Some (Inl e, st2) \<Rightarrow> Some (Inl e, st2)
              | Some (Inr cvs, st2) \<Rightarrow> Some (Inr arr, st2))"
    using ne first by (subst importManyWithAllVersions.simps) (simp add: Let_def)
next
  fix older st2
  assume second: "importMany env (map Some (allIdsWithAllVersions arr)) cache True st1 = Some (Inr older, st2)"
  let ?deps = "uniqFromArray (dependenciesOnly ids (arr @ older))"
  have "importManyWithAllVersions env ids cache True st =
                    (case importManyWithAllVersions env (map Some ?deps) True False st2 of
                       None \<Rightarrow> None
                     | Some (Inl e, st3) \<Rightarrow> Some (Inl e, st3)
                     | Some (Inr r, st3) \<Rightarrow> Some (Inr ((arr @ older) @ r), st3))"
    using ne first second by (subst importManyWithAllVersions.simps) (simp add: Let_def)
  moreover have "distinct (map idString ?deps)"
    unfolding uniqFromArray_def by (rule distinct_uniqBy)
  moreover have "set ?deps \<subseteq> set (dependenciesOnly ids (arr @ older))"
    unfolding uniqFromArray_def by (rule set_uniqBy)
  moreover have "idString ` set ?deps = idString ` set (dependenciesOnly ids (arr @ older))"
    unfolding uniqFromArray_def by (simp add: keys_uniqBy)
  moreover note dependenciesOnly_set[of ids "arr @ older"]
  ultimately show "\<exists>deps.
                  importManyWithAllVersions env ids cache True st =
                    (case importManyWithAllVersions env (map Some deps) True False st2 of
                       None \<Rightarrow> None
                     | Some (Inl e, st3) \<Rightarrow> Some (Inl e, st3)
                     | Some (Inr r, st3) \<Rightarrow> Some (Inr ((arr @ older) @ r), st3))
                  \<and> distinct (map idString deps)
                  \<and> set deps \<subseteq> set (dependenciesOnly ids (arr @ older))
                  \<and> idString ` set deps = idString ` set (dependenciesOnly ids (arr @ older))
                  \<and> set (dependenciesOnly ids (arr @ older)) =
                      {i. (\<exists>v \<in> set (arr @ older). \<exists>d \<in> set (allDependencies v). i = cv_id d) \<and>
                          \<not> (\<exists>j \<in> set (removeNils ids). scope j = scope i \<and> name j = name i)}"
    by blast
qed

section \<open>What a successful resolution returns\<close>











lemma getMany_keyed:
  assumes "storeKeyedById env" and "d \<in> set (sources_getMany env w ids)" and "snd d = Some c"
  shows "mc_scope c = scope (fst d) \<and> mc_name c = name (fst d)"
  using assms unfolding storeKeyedById_def sources_getMany_def by auto






lemma localsFirst_length: "length (localsFirst self ids) = length ids"
  unfolding localsFirst_def using sum_length_filter_compl[of "isLocal self" ids] by simp
















lemma toy_keyed: "storeKeyedById (toy_env self supplies limit vers)"
  by (auto simp: storeKeyedById_def toy_env_def toy_component_def)






text \<open>
  C3 (as stated, refuted). The claim says that \<^verbatim>\<open>importMany\<close> on identifiers that are
  all local completes with no call of the remote fetch. The local component \<open>l\<close>
  depends on the external \<open>a\<close>, which the store does not have: expanding \<open>l\<close> fetches
  \<open>a\<close>.
\<close>

theorem C3_local_id_fetches_dependency:
  "isLocal (scope_name deps_env) idL \<and>
   importMany deps_env [Some idL] True True stLM =
     Some (Inr [toy_vd idL [toy_cv idM, toy_cv idA]],
           \<lparr>world = [''me/l@1'', ''me/m@1'', ''r/a@1''],
            trace = [Fetch \<lparr>grouped = [(''r'', [''r/a@1''])], options = WithoutDependencies,
                            requestContext = Some [''r/a@1'']\<rparr>,
                     WriteMany [RawObject ''r/a@1'' []] None [idA]]\<rparr>)"
  by code_simp

section \<open>Local identifiers\<close>

lemma shallow_nil: "getExternalManyWithoutDependencies env [] lf st = Some (Inr [], st)"
  by (subst getExternalManyWithoutDependencies.simps) simp

lemma deep_nil: "getExternalMany env [] lf p st = Some (Inr [], st)"
  by (subst getExternalMany.simps) simp

lemma map_of_tabulate:
  "map_of (map (\<lambda>k. (k, g k)) ks) s = (if s \<in> set ks then Some (g s) else None)"
  by (induction ks) auto

lemma group_lookup:
  "map_of (groupByScopeName sc str xs) s =
     (if s \<in> sc ` set xs then Some (map str (filter (\<lambda>i. sc i = s) xs)) else None)"
  unfolding groupByScopeName_def by (simp add: map_of_tabulate)

lemma importManyWithoutDependencies_local:
  assumes "\<forall>j \<in> set deps. isLocal (scope_name env) j"
  shows "\<exists>r. importManyWithoutDependencies env (map Some deps) cache st = Some (r, st)"
proof -
  from assms have "filter (\<lambda>x. \<not> isLocal (scope_name env) x) deps = []"
    by (simp add: filter_empty_conv)
  then show ?thesis
    by (auto simp: importManyWithoutDependencies_def removeNils_map_Some splitBy_def shallow_nil
          split: sum.splits)
qed

lemma collectDependencies_local:
  assumes "\<forall>j \<in> set (flattenedDependencies ver @ flattenedDevDependencies ver @ extensionsBitIds ver).
             isLocal (scope_name env) j"
  shows "\<exists>r. collectDependencies env vc src ver st = Some (r, st)"
proof -
  from assms obtain r1 where a: "importManyWithoutDependencies env (map Some (flattenedDependencies ver)) True st = Some (r1, st)"
    using importManyWithoutDependencies_local[of "flattenedDependencies ver" env True st] by auto
  from assms obtain r2 where b: "importManyWithoutDependencies env (map Some (flattenedDevDependencies ver)) True st = Some (r2, st)"
    using importManyWithoutDependencies_local[of "flattenedDevDependencies ver" env True st] by auto
  from assms obtain r3 where c: "importManyWithoutDependencies env (map Some (extensionsBitIds ver)) True st = Some (r3, st)"
    using importManyWithoutDependencies_local[of "extensionsBitIds ver" env True st] by auto
  show ?thesis
    unfolding collectDependencies_def using a b c
    by (cases r1; cases r2; cases r3) simp_all
qed

lemma componentToVersionDependencies_local:
  assumes "allDepsLocal env" and "mc_scope c = scope_name env"
  shows "\<exists>r. componentToVersionDependencies env c i st = Some (r, st)"
proof (cases "getVersion env (world st) (toComponentVersion c (version i))")
  case None
  with assms(2) show ?thesis by (simp add: componentToVersionDependencies_eq)
next
  case (Some ver)
  with assms(1) have "\<forall>j \<in> set (flattenedDependencies ver @ flattenedDevDependencies ver @ extensionsBitIds ver).
             isLocal (scope_name env) j"
    unfolding allDepsLocal_def by blast
  from collectDependencies_local[OF this] Some show ?thesis
    by (simp add: componentToVersionDependencies_eq)
qed

lemma mapSeries_same_state:
  assumes "\<And>x. x \<in> set xs \<Longrightarrow> \<exists>r. f x st = Some (r, st)"
  shows "\<exists>r. mapSeries f xs st = Some (r, st)"
  using assms
proof (induction xs)
  case Nil
  show ?case by simp
next
  case (Cons x xs)
  from Cons.prems[of x] obtain r where fx: "f x st = Some (r, st)" by auto
  from Cons.IH Cons.prems obtain rs where ms: "mapSeries f xs st = Some (rs, st)" by auto
  show ?case using fx ms by (cases r; cases rs) simp_all
qed

lemma expandLocalDefs_local:
  assumes ad: "allDepsLocal env" and sk: "storeKeyedById env"
    and loc: "\<forall>i \<in> set ids. isLocal (scope_name env) i"
  shows "\<exists>r. mapSeries (expandLocalDef env) (sources_getMany env w ids) st = Some (r, st)"
proof (rule mapSeries_same_state)
  fix d
  assume d: "d \<in> set (sources_getMany env w ids)"
  show "\<exists>r. expandLocalDef env d st = Some (r, st)"
  proof (cases "snd d")
    case None
    then show ?thesis by (simp add: expandLocalDef_def)
  next
    case (Some c)
    from d loc have "scope (fst d) = scope_name env"
      by (auto simp: sources_getMany_def isLocal_def)
    with getMany_keyed[OF sk d Some] have "mc_scope c = scope_name env" by simp
    from componentToVersionDependencies_local[OF ad this] Some show ?thesis
      by (simp add: expandLocalDef_def)
  qed
qed

lemma importMany_locals_only:
  assumes loc: "\<forall>i \<in> set (removeNils ids). isLocal (scope_name env) i"
  shows "importMany env ids cache p st =
           (if removeNils ids = [] then Some (Inr [], st)
            else mapSeries (expandLocalDef env) (sources_getMany env (world st) (removeNils ids)) st)"
proof -
  from loc have f: "filter (isLocal (scope_name env)) (removeNils ids) = removeNils ids"
    and g: "filter (\<lambda>i. \<not> isLocal (scope_name env) i) (removeNils ids) = []"
    by (simp_all add: filter_empty_conv filter_id_conv)
  show ?thesis
    by (simp add: importMany_def Let_def comp_def f g deep_nil split: option.splits sum.splits prod.splits)
qed

text \<open>
  C3 (amended). For identifiers that are all local, \<^verbatim>\<open>importMany\<close> is the local lookup
  followed by the expansion of each record: none of the requested identifiers is passed
  to \<^verbatim>\<open>_getExternalMany\<close>, hence to the remote. Remote fetches can still come from the
  expansion, for external flattened dependencies; when every flattened dependency is
  local as well, the call completes with the state untouched: no fetch and no write.
  Identifiers that are fetched travel grouped by scope name: the group of a scope holds
  the strings of exactly the identifiers of that scope, in order.
\<close>

theorem C3_local_ids_not_fetched:
  assumes loc: "\<forall>i \<in> set (removeNils ids). isLocal (scope_name env) i"
  shows "importMany env ids cache persistFlag st =
           (if removeNils ids = [] then Some (Inr [], st)
            else mapSeries (expandLocalDef env) (sources_getMany env (world st) (removeNils ids)) st)
         \<and> (allDepsLocal env \<and> storeKeyedById env \<longrightarrow>
              (\<exists>r. importMany env ids cache persistFlag st = Some (r, st)))
         \<and> (\<forall>xs s. map_of (groupByScopeName scope idString xs) s =
              (if s \<in> scope ` set xs then Some (map idString (filter (\<lambda>i. scope i = s) xs)) else None))"
proof (intro conjI impI allI)
  show "importMany env ids cache persistFlag st =
           (if removeNils ids = [] then Some (Inr [], st)
            else mapSeries (expandLocalDef env) (sources_getMany env (world st) (removeNils ids)) st)"
    by (rule importMany_locals_only[OF loc])
next
  assume "allDepsLocal env \<and> storeKeyedById env"
  then have ad: "allDepsLocal env" and sk: "storeKeyedById env" by simp_all
  from expandLocalDefs_local[OF ad sk loc, of "world st" st]
  show "\<exists>r. importMany env ids cache persistFlag st = Some (r, st)"
    by (auto simp: importMany_locals_only[OF loc])
next
  fix xs s
  show "map_of (groupByScopeName scope idString xs) s =
              (if s \<in> scope ` set xs then Some (map idString (filter (\<lambda>i. scope i = s) xs)) else None)"
    by (rule group_lookup)
qed

lemma local_env_allDepsLocal: "allDepsLocal local_env"
  by (auto simp: allDepsLocal_def local_env_def toy_env_def depsOnM_def noDeps_def isLocal_def idM_def
        split: if_splits)

theorem C3_local_ids_witness:
  "allDepsLocal local_env \<and> storeKeyedById local_env \<and>
   importMany local_env [Some idL] True True stLM = Some (Inr [toy_vd idL [toy_cv idM]], stLM)"
proof -
  have loc: "\<forall>i \<in> set (removeNils [Some idL]). isLocal (scope_name local_env) i"
    by (simp add: removeNils_def isLocal_def local_env_def toy_env_def idL_def)
  have sk: "storeKeyedById local_env"
    unfolding local_env_def by (rule toy_keyed)
  have ne: "removeNils [Some idL] \<noteq> []"
    by (simp add: removeNils_def)
  have run: "mapSeries (expandLocalDef local_env) (sources_getMany local_env (world stLM) (removeNils [Some idL])) stLM =
      Some (Inr [toy_vd idL [toy_cv idM]], stLM)"
    by code_simp
  from C3_local_ids_not_fetched[OF loc, of True True stLM] ne run sk local_env_allDepsLocal
  show ?thesis by simp
qed

section \<open>The trace of a resolution\<close>

lemma traceExtends_refl: "traceExtends st st"
  by (simp add: traceExtends_def)

lemma traceExtends_trans: "traceExtends a b \<Longrightarrow> traceExtends b c \<Longrightarrow> traceExtends a c"
  by (auto simp: traceExtends_def)

lemma traceExtends_mem: "traceExtends a b \<Longrightarrow> e \<in> set (trace a) \<Longrightarrow> e \<in> set (trace b)"
  by (auto simp: traceExtends_def)

lemma fetch_trace: "remotes_fetch env req st = (x, st1) \<Longrightarrow> trace st1 = trace st @ [Fetch req]"
  by (auto simp: remotes_fetch_def split: prod.splits)

lemma write_trace: "scope_writeMany env ol p ids st1 = (nl, st2) \<Longrightarrow> trace st2 = trace st1 @ [WriteMany ol p ids]"
  by (auto simp: scope_writeMany_def split: prod.splits)

lemma fetch_write_extends:
  assumes "remotes_fetch env req st = (x, st1)" and "scope_writeMany env ol p ids st1 = (nl, st2)"
  shows "traceExtends st st2" and "Fetch req \<in> set (trace st2)"
  using fetch_trace[OF assms(1)] write_trace[OF assms(2)] by (simp_all add: traceExtends_def)

lemma fetch_extends:
  assumes "remotes_fetch env req st = (x, st1)"
  shows "traceExtends st st1" and "Fetch req \<in> set (trace st1)"
  using fetch_trace[OF assms(1)] by (simp_all add: traceExtends_def)

lemma shallow_extends:
  assumes run: "getExternalManyWithoutDependencies env ids lf st = Some r"
  shows "traceExtends st (snd r)"
proof (rule getExternalManyWithoutDependencies.raw_induct[where
      P = "\<lambda>env ids lf st r. traceExtends st (snd r)", OF _ run], goal_cases)
  case (1 f env ids lf st r)
  note IH = 1(1) and body = 1(2)
  show ?case
  proof (cases "ids = []")
    case True
    with body show ?thesis by (auto simp: traceExtends_refl)
  next
    case ne: False
    let ?defs = "sources_getMany env (world st) ids"
    let ?left = "filter (\<lambda>d. \<not> lf \<or> snd d = None) ?defs"
    show ?thesis
    proof (cases "?left = []")
      case True
      with body ne show ?thesis by (auto simp: Let_def traceExtends_refl)
    next
      case False
      let ?req = "\<lparr>grouped = groupByScopeName scope idString (map fst ?left),
                    options = WithoutDependencies, requestContext = Some (map idString ids)\<rparr>"
      obtain x st1 where fe: "remotes_fetch env ?req st = (x, st1)" by (cases "remotes_fetch env ?req st")
      show ?thesis
      proof (cases x)
        case (Inl e)
        with body ne False fe have "r = (Inl e, st1)" by (auto simp: Let_def)
        with fetch_extends(1)[OF fe] show ?thesis by simp
      next
        case (Inr objectList)
        obtain nl st2 where wr: "scope_writeMany env objectList None ids st1 = (nl, st2)"
          by (cases "scope_writeMany env objectList None ids st1")
        from body ne False fe Inr wr have "f env nl True st2 = Some r" by (auto simp: Let_def)
        from IH[OF this] fetch_write_extends(1)[OF fe wr] show ?thesis
          by (rule traceExtends_trans[rotated])
      qed
    qed
  qed
qed

lemma importManyWithoutDependencies_extends:
  assumes "importManyWithoutDependencies env ids cache st = Some (r, st')"
  shows "traceExtends st st'"
proof -
  have "st' = st \<or> (\<exists>xs lf r'. getExternalManyWithoutDependencies env xs lf st = Some (r', st'))"
    using assms
    by (auto simp: importManyWithoutDependencies_def Let_def
          split: if_splits option.splits sum.splits prod.splits)
  then show ?thesis using shallow_extends by (fastforce simp: traceExtends_refl)
qed

lemma collectDependencies_extends:
  assumes "collectDependencies env vc src ver st = Some (r, st')"
  shows "traceExtends st st'"
proof -
  from assms obtain r1 st1 where
    a: "importManyWithoutDependencies env (map Some (flattenedDependencies ver)) True st = Some (r1, st1)"
    by (auto simp: collectDependencies_def split: option.splits)
  note e1 = importManyWithoutDependencies_extends[OF a]
  show ?thesis
  proof (cases r1)
    case (Inl e)
    with assms a e1 show ?thesis by (simp add: collectDependencies_def)
  next
    case deps: (Inr deps)
    from assms a deps obtain r2 st2 where
      b: "importManyWithoutDependencies env (map Some (flattenedDevDependencies ver)) True st1 = Some (r2, st2)"
      by (auto simp: collectDependencies_def split: option.splits)
    note e2 = traceExtends_trans[OF e1 importManyWithoutDependencies_extends[OF b]]
    show ?thesis
    proof (cases r2)
      case (Inl e)
      with assms a deps b e2 show ?thesis by (simp add: collectDependencies_def)
    next
      case dev: (Inr dev)
      from assms a deps b dev obtain r3 st3 where
        c: "importManyWithoutDependencies env (map Some (extensionsBitIds ver)) True st2 = Some (r3, st3)"
        by (auto simp: collectDependencies_def split: option.splits)
      note e3 = traceExtends_trans[OF e2 importManyWithoutDependencies_extends[OF c]]
      from assms a deps b dev c e3 show ?thesis
        by (cases r3) (simp_all add: collectDependencies_def)
    qed
  qed
qed

lemma resolveCall_extends:
  assumes run: "resolveCall env c st = Some r"
  shows "traceExtends st (snd r)"
proof (rule resolveCall.raw_induct[where P = "\<lambda>env c st r. traceExtends st (snd r)", OF _ run], goal_cases)
  case (1 f env c st r)
  note IH = 1(1) and body = 1(2)
  show ?case
  proof (cases c)
    case (Call_componentToVersionDependencies component i)
    show ?thesis
    proof (cases "getVersion env (world st) (toComponentVersion component (version i))")
      case None
      show ?thesis
      proof (cases "mc_scope component = scope_name env")
        case True
        with body Call_componentToVersionDependencies None show ?thesis
          by (auto simp: Let_def traceExtends_refl)
      next
        case False
        with body Call_componentToVersionDependencies None
        have "f env (Call_getExternal i False) st = Some r" by (simp add: Let_def)
        from IH[OF this] show ?thesis .
      qed
    next
      case (Some ver)
      with body Call_componentToVersionDependencies
      have "collectDependencies env (toComponentVersion component (version i)) (scope i) ver st = Some (fst r, snd r)"
        by (simp add: Let_def)
      from collectDependencies_extends[OF this] show ?thesis .
    qed
  next
    case (Call_getExternal i lf)
    show ?thesis
    proof (cases "sources_get env (world st) i \<noteq> None \<and> lf")
      case True
      with body Call_getExternal
      have "f env (Call_componentToVersionDependencies (the (sources_get env (world st) i)) i) st = Some r"
        by (simp add: Let_def)
      from IH[OF this] show ?thesis .
    next
      case False
      let ?req = "\<lparr>grouped = groupByScopeName scope idString [i], options = NoOptions, requestContext = None\<rparr>"
      obtain x st1 where fe: "remotes_fetch env ?req st = (x, st1)" by (cases "remotes_fetch env ?req st")
      show ?thesis
      proof (cases x)
        case (Inl e)
        with body Call_getExternal False fe have "r = (Inl e, st1)" by (auto simp: Let_def)
        with fetch_extends(1)[OF fe] show ?thesis by simp
      next
        case (Inr objectList)
        obtain nl st2 where wr: "scope_writeMany env objectList (Some True) [i] st1 = (nl, st2)"
          by (cases "scope_writeMany env objectList (Some True) [i] st1")
        from body Call_getExternal False fe Inr wr
        have "f env (Call_getExternal i True) st2 = Some r" by (auto simp: Let_def)
        from IH[OF this] fetch_write_extends(1)[OF fe wr] show ?thesis
          by (rule traceExtends_trans[rotated])
      qed
    qed
  qed
qed

lemma mapSeries_extends:
  assumes "mapSeries f xs st = Some (r, st')"
    and "\<And>x s y s'. f x s = Some (y, s') \<Longrightarrow> traceExtends s s'"
  shows "traceExtends st st'"
  using assms(1)
proof (induction xs arbitrary: st r)
  case Nil
  then show ?case by (simp add: traceExtends_refl)
next
  case (Cons x xs)
  from Cons.prems obtain y s1 where fx: "f x st = Some (y, s1)"
    by (auto split: option.splits)
  note e1 = assms(2)[OF fx]
  show ?case
  proof (cases y)
    case (Inl e)
    with Cons.prems fx e1 show ?thesis by simp
  next
    case (Inr v)
    with Cons.prems fx obtain rs where rest: "mapSeries f xs s1 = Some (rs, st')"
      by (auto split: option.splits sum.splits prod.splits)
    from e1 Cons.IH[OF rest] show ?thesis by (rule traceExtends_trans)
  qed
qed

lemma expandDef_extends:
  assumes "expandDef env d s = Some (y, s')"
  shows "traceExtends s s'"
proof (cases "snd d")
  case None
  with assms show ?thesis by (simp add: expandDef_def traceExtends_refl)
next
  case (Some c)
  with assms resolveCall_extends[of env "Call_componentToVersionDependencies c (fst d)" s "(y, s')"]
  show ?thesis by (simp add: expandDef_def componentToVersionDependencies_def)
qed

lemma expandLocalDef_extends:
  assumes "expandLocalDef env d s = Some (y, s')"
  shows "traceExtends s s'"
proof (cases "snd d")
  case None
  with assms show ?thesis by (simp add: expandLocalDef_def traceExtends_refl)
next
  case (Some c)
  with assms resolveCall_extends[of env "Call_componentToVersionDependencies c (fst d)" s "(y, s')"]
  show ?thesis by (simp add: expandLocalDef_def componentToVersionDependencies_def)
qed

lemma deep_extends:
  assumes run: "getExternalMany env ids lf p st = Some r"
  shows "traceExtends st (snd r)"
proof (rule getExternalMany.raw_induct[where
      P = "\<lambda>env ids lf p st r. traceExtends st (snd r)", OF _ run], goal_cases)
  case (1 f env ids lf p st r)
  note IH = 1(1) and body = 1(2)
  show ?case
  proof (cases "ids = []")
    case True
    with body show ?thesis by (auto simp: traceExtends_refl)
  next
    case ne: False
    let ?defs = "sources_getMany env (world st) ids"
    let ?left = "filter (\<lambda>d. \<not> lf \<or> snd d = None) ?defs"
    show ?thesis
    proof (cases "?left = []")
      case True
      with body ne have "mapSeries (expandDef env) ?defs st = Some (fst r, snd r)"
        by (auto simp: Let_def)
      from mapSeries_extends[OF this expandDef_extends] show ?thesis .
    next
      case False
      let ?req = "\<lparr>grouped = groupByScopeName scope idString (map fst ?left),
                    options = NoOptions, requestContext = Some (map idString ids)\<rparr>"
      obtain x st1 where fe: "remotes_fetch env ?req st = (x, st1)" by (cases "remotes_fetch env ?req st")
      show ?thesis
      proof (cases x)
        case (Inl e)
        with body ne False fe have "r = (Inl e, st1)" by (auto simp: Let_def)
        with fetch_extends(1)[OF fe] show ?thesis by simp
      next
        case (Inr objectList)
        obtain nl st2 where wr: "scope_writeMany env objectList (Some p) ids st1 = (nl, st2)"
          by (cases "scope_writeMany env objectList (Some p) ids st1")
        from body ne False fe Inr wr have "f env nl True True st2 = Some r" by (auto simp: Let_def)
        from IH[OF this] fetch_write_extends(1)[OF fe wr] show ?thesis
          by (rule traceExtends_trans[rotated])
      qed
    qed
  qed
qed

text \<open>With local fetch off, the first thing the resolver does is fetch all its identifiers.\<close>

lemma deep_forced:
  assumes run: "getExternalMany env ids False p st = Some (r, st')" and ne: "ids \<noteq> []"
  shows "Fetch \<lparr>grouped = groupByScopeName scope idString ids, options = NoOptions,
                 requestContext = Some (map idString ids)\<rparr> \<in> set (trace st')"
proof -
  let ?req = "\<lparr>grouped = groupByScopeName scope idString ids, options = NoOptions,
               requestContext = Some (map idString ids)\<rparr>"
  note lne = left_all_nonempty[OF ne, of env "world st"]
  obtain x st1 where fe: "remotes_fetch env ?req st = (x, st1)" by (cases "remotes_fetch env ?req st")
  show ?thesis
  proof (cases x)
    case (Inl e)
    with run ne lne fe have "st' = st1"
      by (subst (asm) getExternalMany.simps) (simp add: Let_def left_all[simplified])
    with fetch_extends(2)[OF fe] show ?thesis by simp
  next
    case (Inr objectList)
    obtain nl st2 where wr: "scope_writeMany env objectList (Some p) ids st1 = (nl, st2)"
      by (cases "scope_writeMany env objectList (Some p) ids st1")
    from run ne lne fe Inr wr have "getExternalMany env nl True True st2 = Some (r, st')"
      by (subst (asm) getExternalMany.simps) (simp add: Let_def left_all[simplified])
    from deep_extends[OF this] fetch_write_extends(2)[OF fe wr] show ?thesis
      by (auto intro: traceExtends_mem)
  qed
qed

section \<open>Lanes\<close>

lemma importMany_after_locals:
  assumes locals: "mapSeries (expandLocalDef env)
        (sources_getMany env (world st) (filter (isLocal (scope_name env)) ids)) st = Some (Inr versionDeps, st2)"
    and ne: "ids \<noteq> []"
  shows "importMany env (map Some ids) cache p st =
           (case getExternalMany env (filter (\<lambda>i. \<not> isLocal (scope_name env) i) ids) cache p st2 of
              None \<Rightarrow> None
            | Some (Inl e, st') \<Rightarrow> Some (Inl e, st')
            | Some (Inr externalDeps, st') \<Rightarrow> Some (Inr (versionDeps @ externalDeps), st'))"
  using assms by (simp add: importMany_def removeNils_map_Some Let_def comp_def)

lemma deep_forced_eq:
  assumes ne: "ids \<noteq> []"
  shows "getExternalMany env ids False p st =
           (case remotes_fetch env \<lparr>grouped = groupByScopeName scope idString ids, options = NoOptions,
                                   requestContext = Some (map idString ids)\<rparr> st of
              (Inl e, st1) \<Rightarrow> Some (Inl e, st1)
            | (Inr objectList, st1) \<Rightarrow>
                (case scope_writeMany env objectList (Some p) ids st1 of
                   (nonLaneIds, st2) \<Rightarrow> getExternalMany env nonLaneIds True True st2))"
  using ne left_all_nonempty[OF ne, of env "world st"]
  by (subst getExternalMany.simps) (simp add: Let_def left_all[simplified])

text \<open>
  C10 (as stated, refuted). The claim says every external identifier referenced by the
  fetched lanes triggers a remote round-trip. \<^verbatim>\<open>importMany\<close> expands the local
  identifiers before it turns to the external ones: when a lane also refers to a local
  component without a record, the call fails with ComponentNotFound and the external
  identifier of the lane is never fetched.
\<close>

theorem C10_local_failure_no_fetch:
  "lane_components devLaneX = [idX, idA] \<and>
   importFromLanes laneX_env [\<lparr>rl_scope = ''r'', rl_name = ''dev''\<rparr>] stA =
     Some (Inl (ComponentNotFound ''me/x@1''),
           \<lparr>world = [''r/a@1''],
            trace = [Fetch \<lparr>grouped = [(''r'', [''r/dev''])], options = TypeLane, requestContext = None\<rparr>,
                     SyncLane ''r'' devLaneX]\<rparr>)"
  by code_simp

text \<open>
  C10 (amended). \<^verbatim>\<open>importFromLanes\<close> passes the identifiers of the fetched lanes to
  \<^verbatim>\<open>importManyWithAllVersions\<close> with the cache flag false (and shallow). Once the lanes
  are fetched and the local identifiers they refer to are expanded, the next thing the
  call does is fetch all the external identifiers of the lanes, grouped by scope,
  whatever the local store holds for them: the call is that fetch followed by the
  write-back, the recursion on the residual with local fetch on, and the shallow import
  of the other versions. Every run that returns, with lanes or with an error, has that
  fetch in its trace.
\<close>

theorem C10_importFromLanes_forces_fetch:
  assumes lanes: "importLanes env remoteLaneIds st = Some (Inr lanes, st1)"
    and locals: "mapSeries (expandLocalDef env)
        (sources_getMany env (world st1)
           (filter (isLocal (scope_name env)) (uniqFromArray (concat (map lane_components lanes))))) st1 =
        Some (Inr versionDeps, st2)"
    and ne: "filter (\<lambda>i. \<not> isLocal (scope_name env) i) (uniqFromArray (concat (map lane_components lanes))) \<noteq> []"
  shows "(let externals = filter (\<lambda>i. \<not> isLocal (scope_name env) i)
                            (uniqFromArray (concat (map lane_components lanes)));
              req = \<lparr>grouped = groupByScopeName scope idString externals, options = NoOptions,
                     requestContext = Some (map idString externals)\<rparr>
          in importFromLanes env remoteLaneIds st =
               (case remotes_fetch env req st2 of
                  (Inl e, st3) \<Rightarrow> Some (Inl e, st3)
                | (Inr objectList, st3) \<Rightarrow>
                    (case scope_writeMany env objectList (Some True) externals st3 of
                       (nonLaneIds, st4) \<Rightarrow>
                         (case getExternalMany env nonLaneIds True True st4 of
                            None \<Rightarrow> None
                          | Some (Inl e, st5) \<Rightarrow> Some (Inl e, st5)
                          | Some (Inr externalDeps, st5) \<Rightarrow>
                              (case importManyWithoutDependencies env
                                      (map Some (allIdsWithAllVersions (versionDeps @ externalDeps))) True st5 of
                                 None \<Rightarrow> None
                               | Some (Inl e, st6) \<Rightarrow> Some (Inl e, st6)
                               | Some (Inr cvs, st6) \<Rightarrow> Some (Inr lanes, st6)))))
             \<and> (\<forall>r st'. importFromLanes env remoteLaneIds st = Some (r, st') \<longrightarrow>
                   Fetch req \<in> set (trace st'))
             \<and> (\<forall>i \<in> set externals.
                   \<exists>strs. map_of (grouped req) (scope i) = Some strs \<and> idString i \<in> set strs))"
proof -
  let ?bitIds = "uniqFromArray (concat (map lane_components lanes))"
  let ?externals = "filter (\<lambda>i. \<not> isLocal (scope_name env) i) ?bitIds"
  let ?req = "\<lparr>grouped = groupByScopeName scope idString ?externals, options = NoOptions,
                     requestContext = Some (map idString ?externals)\<rparr>"
  from ne have bne: "?bitIds \<noteq> []" by auto
  have im: "importMany env (map Some ?bitIds) False True st1 =
           (case getExternalMany env ?externals False True st2 of
              None \<Rightarrow> None
            | Some (Inl e, st') \<Rightarrow> Some (Inl e, st')
            | Some (Inr externalDeps, st') \<Rightarrow> Some (Inr (versionDeps @ externalDeps), st'))"
    by (rule importMany_after_locals[OF locals bne])
  have all: "importManyWithAllVersions env (map Some ?bitIds) False False st1 =
      (case getExternalMany env ?externals False True st2 of
         None \<Rightarrow> None
       | Some (Inl e, st') \<Rightarrow> Some (Inl e, st')
       | Some (Inr externalDeps, st') \<Rightarrow>
           (case importManyWithoutDependencies env
                   (map Some (allIdsWithAllVersions (versionDeps @ externalDeps))) True st' of
              None \<Rightarrow> None
            | Some (Inl e, st6) \<Rightarrow> Some (Inl e, st6)
            | Some (Inr cvs, st6) \<Rightarrow> Some (Inr (versionDeps @ externalDeps), st6)))"
    using bne
    by (subst importManyWithAllVersions.simps)
       (simp add: removeNils_map_Some Let_def im split: option.splits sum.splits prod.splits)
  have lf: "importFromLanes env remoteLaneIds st =
      (case getExternalMany env ?externals False True st2 of
         None \<Rightarrow> None
       | Some (Inl e, st') \<Rightarrow> Some (Inl e, st')
       | Some (Inr externalDeps, st') \<Rightarrow>
           (case importManyWithoutDependencies env
                   (map Some (allIdsWithAllVersions (versionDeps @ externalDeps))) True st' of
              None \<Rightarrow> None
            | Some (Inl e, st6) \<Rightarrow> Some (Inl e, st6)
            | Some (Inr cvs, st6) \<Rightarrow> Some (Inr lanes, st6)))"
    using lanes by (simp add: importFromLanes_def Let_def all split: option.splits sum.splits prod.splits)
  have eq: "importFromLanes env remoteLaneIds st =
               (case remotes_fetch env ?req st2 of
                  (Inl e, st3) \<Rightarrow> Some (Inl e, st3)
                | (Inr objectList, st3) \<Rightarrow>
                    (case scope_writeMany env objectList (Some True) ?externals st3 of
                       (nonLaneIds, st4) \<Rightarrow>
                         (case getExternalMany env nonLaneIds True True st4 of
                            None \<Rightarrow> None
                          | Some (Inl e, st5) \<Rightarrow> Some (Inl e, st5)
                          | Some (Inr externalDeps, st5) \<Rightarrow>
                              (case importManyWithoutDependencies env
                                      (map Some (allIdsWithAllVersions (versionDeps @ externalDeps))) True st5 of
                                 None \<Rightarrow> None
                               | Some (Inl e, st6) \<Rightarrow> Some (Inl e, st6)
                               | Some (Inr cvs, st6) \<Rightarrow> Some (Inr lanes, st6)))))"
    unfolding lf deep_forced_eq[OF ne]
    by (simp split: option.splits sum.splits prod.splits)
  have tr: "Fetch ?req \<in> set (trace st')" if run: "importFromLanes env remoteLaneIds st = Some (r, st')" for r st'
  proof -
    from run lf obtain r' sta where
      g: "getExternalMany env ?externals False True st2 = Some (r', sta)"
      and rest: "sta = st' \<or> (\<exists>xs c x. importManyWithoutDependencies env xs c sta = Some (x, st'))"
      by (auto split: option.splits sum.splits prod.splits)
    from deep_forced[OF g ne] have f: "Fetch ?req \<in> set (trace sta)" .
    from rest show ?thesis
    proof
      assume "sta = st'"
      with f show ?thesis by simp
    next
      assume "\<exists>xs c x. importManyWithoutDependencies env xs c sta = Some (x, st')"
      then obtain xs c x where i: "importManyWithoutDependencies env xs c sta = Some (x, st')" by blast
      from traceExtends_mem[OF importManyWithoutDependencies_extends[OF i] f] show ?thesis .
    qed
  qed
  have g: "\<forall>i \<in> set ?externals.
                   \<exists>strs. map_of (grouped ?req) (scope i) = Some strs \<and> idString i \<in> set strs"
    by (auto simp: group_lookup)
  from eq tr g show ?thesis by (simp add: Let_def)
qed

theorem C10_importFromLanes_witness:
  "sources_get lane_env (world stA) idA = Some (toy_component idA) \<and>
   importFromLanes lane_env [\<lparr>rl_scope = ''r'', rl_name = ''dev''\<rparr>] stA =
     Some (Inr [devLane],
           \<lparr>world = [''r/a@1'', ''r/a@1''],
            trace = [Fetch \<lparr>grouped = [(''r'', [''r/dev''])], options = TypeLane, requestContext = None\<rparr>,
                     SyncLane ''r'' devLane,
                     Fetch \<lparr>grouped = [(''r'', [''r/a@1''])], options = NoOptions,
                            requestContext = Some [''r/a@1'']\<rparr>,
                     WriteMany [RawObject ''r/a@1'' []] (Some True) [idA]]\<rparr>) \<and>
   Fetch \<lparr>grouped = [(''r'', [''r/a@1''])], options = NoOptions, requestContext = Some [''r/a@1'']\<rparr>
     \<in> set (trace \<lparr>world = [''r/a@1'', ''r/a@1''],
            trace = [Fetch \<lparr>grouped = [(''r'', [''r/dev''])], options = TypeLane, requestContext = None\<rparr>,
                     SyncLane ''r'' devLane,
                     Fetch \<lparr>grouped = [(''r'', [''r/a@1''])], options = NoOptions,
                            requestContext = Some [''r/a@1'']\<rparr>,
                     WriteMany [RawObject ''r/a@1'' []] (Some True) [idA]]\<rparr>)"
proof -
  let ?st' = "\<lparr>world = [''r/a@1'', ''r/a@1''],
            trace = [Fetch \<lparr>grouped = [(''r'', [''r/dev''])], options = TypeLane, requestContext = None\<rparr>,
                     SyncLane ''r'' devLane,
                     Fetch \<lparr>grouped = [(''r'', [''r/a@1''])], options = NoOptions,
                            requestContext = Some [''r/a@1'']\<rparr>,
                     WriteMany [RawObject ''r/a@1'' []] (Some True) [idA]]\<rparr>"
  let ?st1 = "\<lparr>world = [''r/a@1''],
            trace = [Fetch \<lparr>grouped = [(''r'', [''r/dev''])], options = TypeLane, requestContext = None\<rparr>,
                     SyncLane ''r'' devLane]\<rparr>"
  have cached: "sources_get lane_env (world stA) idA = Some (toy_component idA)"
    by code_simp
  have lanes: "importLanes lane_env [\<lparr>rl_scope = ''r'', rl_name = ''dev''\<rparr>] stA = Some (Inr [devLane], ?st1)"
    by code_simp
  have loc: "filter (isLocal (scope_name lane_env)) (uniqFromArray (concat (map lane_components [devLane]))) = []"
    by code_simp
  have ext: "filter (\<lambda>i. \<not> isLocal (scope_name lane_env) i) (uniqFromArray (concat (map lane_components [devLane]))) = [idA]"
    by code_simp
  have locals: "mapSeries (expandLocalDef lane_env)
        (sources_getMany lane_env (world ?st1)
           (filter (isLocal (scope_name lane_env)) (uniqFromArray (concat (map lane_components [devLane]))))) ?st1 =
        Some (Inr [], ?st1)"
    unfolding loc by (simp add: sources_getMany_def)
  have run: "importFromLanes lane_env [\<lparr>rl_scope = ''r'', rl_name = ''dev''\<rparr>] stA = Some (Inr [devLane], ?st')"
    by code_simp
  have strs: "groupByScopeName scope idString [idA] = [(''r'', [''r/a@1''])]" "map idString [idA] = [''r/a@1'']"
    by code_simp+
  have ne: "filter (\<lambda>i. \<not> isLocal (scope_name lane_env) i) (uniqFromArray (concat (map lane_components [devLane]))) \<noteq> []"
    unfolding ext by simp
  note c10 = C10_importFromLanes_forces_fetch[OF lanes locals ne, unfolded Let_def ext strs]
  from c10[THEN conjunct2, THEN conjunct1] run
  have "Fetch \<lparr>grouped = [(''r'', [''r/a@1''])], options = NoOptions, requestContext = Some [''r/a@1'']\<rparr>
     \<in> set (trace ?st')"
    by blast
  with cached run show ?thesis by simp
qed

end
